theory Spec2Isabelle
  imports Main "HOL-Library.Word"
begin

unbundle bit_operations_syntax

section \<open>Bytes, buffers and text\<close>

text \<open>
  A Node \<^verbatim>\<open>Buffer\<close> is a list of bytes. JavaScript numbers that the code only uses as
  non-negative integers are natural numbers; the bitwise operators of the source work on
  32-bit integers, and every value they meet here stays below \<open>2 ^ 16\<close>
  (lemma \<open>calculateCrc_bound\<close> below), so no wrap-around occurs.

  A JavaScript string is a HOL string, one \<open>char\<close> for each UTF-16 code unit; HOL
  characters are 8 bits wide, so the model covers the strings whose code units are below
  256. On these \<open>length\<close> is the \<^verbatim>\<open>.length\<close> of the source.
\<close>

type_synonym byte = "8 word"
type_synonym Buffer = "byte list"

text \<open>\<^verbatim>\<open>buf.slice(start, end)\<close> for non-negative indices; both are clamped to the buffer.\<close>

definition slice :: "Buffer \<Rightarrow> nat \<Rightarrow> nat \<Rightarrow> Buffer" where
  "slice buf start stop = take (stop - start) (drop start buf)"

text \<open>\<^verbatim>\<open>buf.slice(-n)\<close>: the last \<open>n\<close> bytes (the whole buffer when it is shorter).\<close>

definition slice_last :: "Buffer \<Rightarrow> nat \<Rightarrow> Buffer" where
  "slice_last buf n = drop (length buf - n) buf"

text \<open>\<^verbatim>\<open>buf[i]\<close>: \<^verbatim>\<open>undefined\<close> out of range.\<close>

definition at :: "Buffer \<Rightarrow> nat \<Rightarrow> byte option" where
  "at buf i = (if i < length buf then Some (buf ! i) else None)"

text \<open>The number a bitwise operator sees: \<^verbatim>\<open>undefined\<close> converts to 0.\<close>

definition toInt32 :: "byte option \<Rightarrow> nat" where
  "toInt32 b = (case b of None \<Rightarrow> 0 | Some x \<Rightarrow> unat x)"

text \<open>
  \<^verbatim>\<open>Buffer.from(s, 'utf8')\<close>: a code unit below 128 is one byte, one from 128 to 255 is
  two bytes.
\<close>

definition utf8_char :: "char \<Rightarrow> Buffer" where
  "utf8_char c =
     (let n = (of_char c :: nat)
      in if n < 128 then [of_nat n]
         else [of_nat (192 + n div 64), of_nat (128 + n mod 64)])"

definition utf8 :: "string \<Rightarrow> Buffer" where
  "utf8 s = concat (map utf8_char s)"

text \<open>
  \<^verbatim>\<open>buf.toString()\<close> decodes UTF-8. The model is exact on bytes below 128, each of which
  is one character; a byte from 128 on is kept as the character of the same code. The
  decoder never merges a byte below 128 into a longer sequence, so an ASCII text such as
  \<^verbatim>\<open>done\<close> occurs in the decoded text exactly where its bytes occur in the buffer.
\<close>

definition toString :: "Buffer \<Rightarrow> string" where
  "toString buf = map (\<lambda>b. char_of (unat b)) buf"

text \<open>\<^verbatim>\<open>s.includes(t)\<close>: \<open>t\<close> occurs in \<open>s\<close> as a contiguous substring.\<close>

fun includes_str :: "string \<Rightarrow> string \<Rightarrow> bool" where
  "includes_str [] t = (t = [])"
| "includes_str (c # s) t = (take (length t) (c # s) = t \<or> includes_str s t)"

section \<open>Types (types/index.ts)\<close>

datatype CommandCode =
  IS_ONLINE | GET_INFO | EXEC | LIST_DIR | DOWNLOAD | GET_FILE | DOWNLOAD_FILE
  | REMOVE_FILE | SET_WIFI

text \<open>The numeric value of each member of the enum.\<close>

fun code_value :: "CommandCode \<Rightarrow> nat" where
  "code_value IS_ONLINE = 0x00"
| "code_value GET_INFO = 0x01"
| "code_value EXEC = 0x02"
| "code_value LIST_DIR = 0x03"
| "code_value DOWNLOAD = 0x04"
| "code_value GET_FILE = 0x05"
| "code_value DOWNLOAD_FILE = 0x06"
| "code_value REMOVE_FILE = 0x07"
| "code_value SET_WIFI = 0x08"

datatype ResponseStatus = SUCCESS | ERROR | TIMEOUT | BUSY | NOT_FOUND | PERMISSION_DENIED

text \<open>\<^verbatim>\<open>data: Buffer | string\<close>\<close>

datatype payload = Str string | Buf Buffer

record Command =
  code :: CommandCode
  data :: payload
  timeout :: "nat option"

record ProtocolFrame =
  header :: Buffer
  length_field :: nat
  command :: "nat option"
  frame_data :: Buffer
  crc :: nat
  footer :: Buffer

text \<open>\<^verbatim>\<open>DEFAULT_CONFIG\<close>\<close>

definition defaultTimeout :: nat where "defaultTimeout = 5000"
definition maxChunkSize :: nat where "maxChunkSize = 256"
definition headerBytes :: Buffer where "headerBytes = [0xaa, 0xab, 0xaa]"
definition footerBytes :: Buffer where "footerBytes = [0xab, 0xcc, 0xab]"

section \<open>ProtocolHandler\<close>

definition CRC_TABLE :: "nat list" where
  "CRC_TABLE =
     [0x0000, 0xcc01, 0xd801, 0x1400, 0xf001, 0x3c00, 0x2800, 0xe401,
      0xa001, 0x6c00, 0x7800, 0xb401, 0x5000, 0x9c01, 0x8801, 0x4400]"

text \<open>One round of the loop of \<^verbatim>\<open>calculateCrc\<close>: the low nibble, then the high one.\<close>

definition crc_byte :: "nat \<Rightarrow> byte \<Rightarrow> nat" where
  "crc_byte crc0 b =
     (let ch = unat b;
          crc1 = (CRC_TABLE ! ((ch XOR crc0) AND 15)) XOR (drop_bit 4 crc0);
          crc2 = (CRC_TABLE ! (((drop_bit 4 ch) XOR crc1) AND 15)) XOR (drop_bit 4 crc1)
      in crc2)"

definition calculateCrc :: "Buffer \<Rightarrow> nat" where
  "calculateCrc buf = foldl crc_byte 0xffff buf"

definition payload_bytes :: "payload \<Rightarrow> Buffer" where
  "payload_bytes d = (case d of Str s \<Rightarrow> utf8 s | Buf b \<Rightarrow> b)"

definition createCommandBuffer :: "CommandCode \<Rightarrow> payload \<Rightarrow> Buffer" where
  "createCommandBuffer cmd d = of_nat (code_value cmd) # payload_bytes d"

text \<open>\<^verbatim>\<open>Buffer.from([n])\<close> keeps the low 8 bits of each number, which \<open>of_nat\<close> does.\<close>

definition createFrame :: "Buffer \<Rightarrow> Buffer" where
  "createFrame commandBuffer =
     (let c = calculateCrc commandBuffer;
          crcBytes = [of_nat (drop_bit 8 c), of_nat (c AND 0x00ff)]
      in headerBytes @ [of_nat (length commandBuffer)] @ commandBuffer @ crcBytes
         @ footerBytes)"

definition isFrameComplete :: "Buffer \<Rightarrow> bool" where
  "isFrameComplete buffer =
     (if length buffer < 8 then False
      else if headerBytes \<noteq> slice buffer 0 3 then False
      else if footerBytes \<noteq> slice_last buffer 3 then False
      else True)"

text \<open>
  \<^verbatim>\<open>parseFrame\<close> returns \<^verbatim>\<open>null\<close> (here \<open>None\<close>) for an incomplete frame and for
  a CRC mismatch, whose exception it catches itself.
\<close>

definition parseFrame :: "Buffer \<Rightarrow> ProtocolFrame option" where
  "parseFrame buffer =
     (if \<not> isFrameComplete buffer then None
      else
        let hd3 = slice buffer 0 3;
            len = toInt32 (at buffer 3);
            dataStart = 4;
            dataEnd = dataStart + len;
            d = slice buffer dataStart dataEnd;
            crcReceived = (push_bit 8 (toInt32 (at buffer dataEnd)))
                            OR toInt32 (at buffer (dataEnd + 1));
            ft = slice_last buffer 3;
            commandData = slice buffer 4 dataEnd;
            crcCalculated = calculateCrc commandData
        in if crcReceived \<noteq> crcCalculated then None
           else Some \<lparr>header = hd3, length_field = len,
                       command = map_option unat (at d 0),
                       frame_data = slice d 1 (length d), crc = crcReceived, footer = ft\<rparr>)"

text \<open>\<^verbatim>\<open>extractResponseData\<close> throws a plain \<^verbatim>\<open>Error\<close>; \<open>Inl\<close> carries its message.\<close>

definition hex_digit :: "nat \<Rightarrow> char" where
  "hex_digit n = (''0123456789abcdef'') ! (n mod 16)"

text \<open>\<^verbatim>\<open>n.toString(16)\<close> for a byte value.\<close>

definition hex_byte :: "nat \<Rightarrow> string" where
  "hex_byte n = (if n < 16 then [hex_digit n] else [hex_digit (n div 16), hex_digit n])"

definition extractResponseData :: "Buffer \<Rightarrow> string + Buffer" where
  "extractResponseData buffer =
     (if \<not> isFrameComplete buffer then Inl ''Incomplete frame''
      else
        let status = toInt32 (at buffer 4)
        in if status \<noteq> 0x00
           then Inl (''Command failed with status: 0x'' @ hex_byte status)
           else Inr (slice buffer 5 (length buffer - 5)))"


section \<open>Errors and promises\<close>

text \<open>
  The error classes of \<^verbatim>\<open>types/index.ts\<close>, and \<^verbatim>\<open>Error\<close> itself. Every value the code
  throws is an \<^verbatim>\<open>Error\<close> object; the model keeps its class and its message (the
  \<^verbatim>\<open>code\<close> field is fixed by the class, \<^verbatim>\<open>details\<close> is not modelled).
\<close>

datatype error_class =
  PlainError | CommunicationError | TimeoutError | DeviceBusyError | FileNotFoundError

record js_error =
  err_class :: error_class
  message :: string

fun class_name :: "error_class \<Rightarrow> string" where
  "class_name PlainError = ''Error''"
| "class_name CommunicationError = ''CommunicationError''"
| "class_name TimeoutError = ''TimeoutError''"
| "class_name DeviceBusyError = ''DeviceBusyError''"
| "class_name FileNotFoundError = ''FileNotFoundError''"

text \<open>\<^verbatim>\<open>String(error)\<close>, as in a template string.\<close>

definition error_toString :: "js_error \<Rightarrow> string" where
  "error_toString e =
     (if message e = [] then class_name (err_class e)
      else class_name (err_class e) @ '': '' @ message e)"

text \<open>Decimal digits of a number, as a template string prints it.\<close>

fun show_nat :: "nat \<Rightarrow> string" where
  "show_nat n =
     (if n < 10 then [''0123456789'' ! n]
      else show_nat (n div 10) @ [''0123456789'' ! (n mod 10)])"

record CommandResponse =
  status :: ResponseStatus
  response_data :: Buffer
  timestamp :: int
  duration :: int

text \<open>
  What an \<^verbatim>\<open>await\<close> sees of a promise: its value, its rejection, or nothing when the
  promise is never settled.
\<close>

datatype 'a outcome = Resolved 'a | Rejected js_error | Pending

section \<open>BaseSerialConnection\<close>

text \<open>
  The fields of the object, followed by the world around it: the clock, the armed timers,
  the calls made to the \<^verbatim>\<open>resolve\<close> and \<^verbatim>\<open>reject\<close> functions of the promises that
  \<^verbatim>\<open>sendCommand\<close> created, the frames handed to \<^verbatim>\<open>writeRaw\<close>, and the events emitted.
  A promise and a timer are named by a number. \<^verbatim>\<open>emit\<close> appends to the list of events:
  listeners are outside the model, and emitting returns normally (the constructor of
  \<^verbatim>\<open>DeviceManager\<close> registers a listener for \<^verbatim>\<open>error\<close> on the connection, and
  \<^verbatim>\<open>M5StackClient.connect\<close> registers one on the \<^verbatim>\<open>DeviceManager\<close>). Of the options
  only \<^verbatim>\<open>timeout\<close> takes part in the behaviour; \<^verbatim>\<open>console.log\<close> is not modelled.
\<close>

type_synonym promise = nat
type_synonym timer = nat

datatype settle_call = Resolve CommandResponse | Reject js_error

datatype event =
  ConnectEvent | DisconnectEvent | DataEvent Buffer | ErrorEvent js_error | BusyEvent bool

record connection =
  options_timeout :: nat
  isConnected :: bool
  isBusy :: bool
  receivedBuffer :: Buffer
  currentResolve :: "promise option"
  currentReject :: "promise option"
  commandTimeout :: "timer option"
  now :: int
  timers :: "(timer \<times> nat) list"
  next_id :: nat
  calls :: "(promise \<times> settle_call) list"
  written :: "Buffer list"
  emitted :: "event list"

text \<open>\<^verbatim>\<open>a || b\<close> on an optional number: \<^verbatim>\<open>undefined\<close> and 0 are both falsy.\<close>

definition or_default :: "nat option \<Rightarrow> nat \<Rightarrow> nat" where
  "or_default a b = (case a of None \<Rightarrow> b | Some n \<Rightarrow> if n = 0 then b else n)"

text \<open>The constructor; the argument is \<^verbatim>\<open>options.timeout\<close>.\<close>

definition new_connection :: "nat option \<Rightarrow> connection" where
  "new_connection t =
     \<lparr>options_timeout = or_default t defaultTimeout, isConnected = False, isBusy = False,
      receivedBuffer = [], currentResolve = None, currentReject = None,
      commandTimeout = None, now = 0, timers = [], next_id = 0, calls = [], written = [],
      emitted = []\<rparr>"

definition emit :: "event \<Rightarrow> connection \<Rightarrow> connection" where
  "emit ev s = s\<lparr>emitted := emitted s @ [ev]\<rparr>"

text \<open>\<^verbatim>\<open>clearTimeout\<close>\<close>

definition clearTimeout :: "timer \<Rightarrow> connection \<Rightarrow> connection" where
  "clearTimeout t s = s\<lparr>timers := filter (\<lambda>x. fst x \<noteq> t) (timers s)\<rparr>"

definition clearCommandState :: "connection \<Rightarrow> connection" where
  "clearCommandState s =
     (let s1 = s\<lparr>isBusy := False, receivedBuffer := []\<rparr>;
          s2 = (case commandTimeout s1 of
                  Some t \<Rightarrow> (clearTimeout t s1)\<lparr>commandTimeout := None\<rparr>
                | None \<Rightarrow> s1);
          s3 = s2\<lparr>currentResolve := None, currentReject := None\<rparr>
      in emit (BusyEvent False) s3)"

text \<open>
  Both handlers clear the command state first and read \<^verbatim>\<open>this.currentResolve\<close>
  (\<^verbatim>\<open>this.currentReject\<close>) afterwards, as the source does.
\<close>

definition handleCommandSuccess :: "CommandResponse \<Rightarrow> connection \<Rightarrow> connection" where
  "handleCommandSuccess response s =
     (let s1 = clearCommandState s
      in case currentResolve s1 of
           Some p \<Rightarrow> s1\<lparr>calls := calls s1 @ [(p, Resolve response)]\<rparr>
         | None \<Rightarrow> s1)"

definition handleCommandError :: "js_error \<Rightarrow> connection \<Rightarrow> connection" where
  "handleCommandError e s =
     (let s1 = clearCommandState s;
          s2 = (case currentReject s1 of
                  Some p \<Rightarrow> s1\<lparr>calls := calls s1 @ [(p, Reject e)]\<rparr>
                | None \<Rightarrow> s1)
      in emit (ErrorEvent e) s2)"

definition handleCommandTimeout :: "connection \<Rightarrow> connection" where
  "handleCommandTimeout s =
     handleCommandError
       \<lparr>err_class = TimeoutError,
        message = ''Command timeout after '' @ show_nat (options_timeout s) @ ''ms''\<rparr> s"

text \<open>
  \<^verbatim>\<open>Date.now()\<close> is read twice in one expression; both reads see the same clock.
\<close>

definition processReceivedFrame :: "connection \<Rightarrow> connection" where
  "processReceivedFrame s =
     (case extractResponseData (receivedBuffer s) of
        Inr responseData \<Rightarrow>
          handleCommandSuccess
            \<lparr>status = SUCCESS, response_data = responseData, timestamp = now s,
             duration = (if commandTimeout s \<noteq> None
                         then now s - (now s - int (options_timeout s)) else 0)\<rparr> s
      | Inl msg \<Rightarrow>
          handleCommandError
            \<lparr>err_class = CommunicationError,
             message = ''Failed to process response: '' @
                       error_toString \<lparr>err_class = PlainError, message = msg\<rparr>\<rparr> s)"

definition onDataReceived :: "Buffer \<Rightarrow> connection \<Rightarrow> connection" where
  "onDataReceived chunk s =
     (let s1 = s\<lparr>receivedBuffer := receivedBuffer s @ chunk\<rparr>;
          s2 = emit (DataEvent chunk) s1
      in if isFrameComplete (receivedBuffer s2) then processReceivedFrame s2 else s2)"

text \<open>
  \<^verbatim>\<open>sendCommandInternal\<close> up to its \<^verbatim>\<open>await\<close>: the frame is built and handed to
  \<^verbatim>\<open>writeRaw\<close>. What follows the \<^verbatim>\<open>await\<close> runs when the write has ended, with its
  error if it failed. The function catches every error itself, so the promise it returns
  is never rejected and the \<^verbatim>\<open>.catch(reject)\<close> of \<^verbatim>\<open>sendCommand\<close> never runs.
\<close>

definition sendCommandInternal :: "Command \<Rightarrow> connection \<Rightarrow> connection" where
  "sendCommandInternal cmd s =
     (let commandBuffer = createCommandBuffer (code cmd) (data cmd);
          frame = createFrame commandBuffer
      in s\<lparr>written := written s @ [frame]\<rparr>)"

definition sendCommandInternal_resume :: "js_error option \<Rightarrow> connection \<Rightarrow> connection" where
  "sendCommandInternal_resume r s =
     (case r of
        None \<Rightarrow> emit (BusyEvent True) s
      | Some e \<Rightarrow>
          handleCommandError
            \<lparr>err_class = CommunicationError,
             message = ''Failed to send command: '' @ error_toString e\<rparr> s)"

text \<open>
  \<^verbatim>\<open>sendCommand\<close> is \<^verbatim>\<open>async\<close>: an exception it throws is the rejection of the promise
  it returns (\<open>Inl\<close>). Otherwise it returns a new promise (\<open>Inr\<close>), whose \<^verbatim>\<open>resolve\<close> and
  \<^verbatim>\<open>reject\<close> functions it stores in the object.
\<close>

definition sendCommand :: "Command \<Rightarrow> connection \<Rightarrow> (js_error + promise) \<times> connection" where
  "sendCommand cmd s =
     (if \<not> isConnected s
      then (Inl \<lparr>err_class = CommunicationError, message = ''Not connected to device''\<rparr>, s)
      else if isBusy s
      then (Inl \<lparr>err_class = DeviceBusyError,
                 message = ''Device is busy with another operation''\<rparr>, s)
      else
        let p = next_id s;
            s1 = s\<lparr>next_id := Suc p, isBusy := True, currentResolve := Some p,
                   currentReject := Some p, receivedBuffer := []\<rparr>;
            tmo = or_default (timeout cmd) (options_timeout s1);
            t = next_id s1;
            s2 = s1\<lparr>next_id := Suc t, timers := timers s1 @ [(t, tmo)],
                    commandTimeout := Some t\<rparr>
        in (Inr p, sendCommandInternal cmd s2))"

definition onConnected :: "connection \<Rightarrow> connection" where
  "onConnected s = emit ConnectEvent (s\<lparr>isConnected := True\<rparr>)"

definition onDisconnected :: "connection \<Rightarrow> connection" where
  "onDisconnected s = emit DisconnectEvent (clearCommandState (s\<lparr>isConnected := False\<rparr>))"

definition onError :: "js_error \<Rightarrow> connection \<Rightarrow> connection" where
  "onError e s =
     (let s1 = emit (ErrorEvent e) s
      in if isBusy s1 then handleCommandError e s1 else s1)"

text \<open>
  What the world does to the object: a write ends, the serial port delivers bytes, opens,
  closes or fails (the handlers \<^verbatim>\<open>NodeSerialConnection.connect\<close> registers), an armed
  timer fires, time passes.
\<close>

datatype input =
  WriteEnded "js_error option" | DataIn Buffer | PortOpened | PortClosed
  | PortError js_error | TimerFired timer | TimePassed nat

definition step :: "input \<Rightarrow> connection \<Rightarrow> connection" where
  "step i s =
     (case i of
        WriteEnded r \<Rightarrow> sendCommandInternal_resume r s
      | DataIn chunk \<Rightarrow> onDataReceived chunk s
      | PortOpened \<Rightarrow> onConnected s
      | PortClosed \<Rightarrow> onDisconnected s
      | PortError e \<Rightarrow> onError e s
      | TimerFired t \<Rightarrow>
          if t \<in> fst ` set (timers s)
          then handleCommandTimeout (s\<lparr>timers := filter (\<lambda>x. fst x \<noteq> t) (timers s)\<rparr>)
          else s
      | TimePassed d \<Rightarrow> s\<lparr>now := now s + int d\<rparr>)"

text \<open>A history of the object: calls of \<^verbatim>\<open>sendCommand\<close> and inputs of the world.\<close>

datatype action = Send Command | Env input

definition act :: "connection \<Rightarrow> action \<Rightarrow> connection" where
  "act s a = (case a of Send cmd \<Rightarrow> snd (sendCommand cmd s) | Env i \<Rightarrow> step i s)"

definition run :: "action list \<Rightarrow> connection \<Rightarrow> connection" where
  "run as s = foldl act s as"

text \<open>The calls made so far to the functions of promise \<open>p\<close>.\<close>

definition calls_of :: "promise \<Rightarrow> connection \<Rightarrow> settle_call list" where
  "calls_of p s = map snd (filter (\<lambda>c. fst c = p) (calls s))"

text \<open>The state of promise \<open>p\<close>: its first call settles it, later calls have no effect.\<close>

definition settled :: "promise \<Rightarrow> connection \<Rightarrow> CommandResponse outcome" where
  "settled p s =
     (case calls_of p s of
        [] \<Rightarrow> Pending
      | Resolve r # _ \<Rightarrow> Resolved r
      | Reject e # _ \<Rightarrow> Rejected e)"

section \<open>The connection as its callers see it\<close>

text \<open>
  \<^verbatim>\<open>sendCommandWithRetry\<close>, \<^verbatim>\<open>FileTransferManager\<close> and \<^verbatim>\<open>DeviceManager\<close> await
  \<^verbatim>\<open>sendCommand\<close>, wait with \<^verbatim>\<open>setTimeout\<close> and read \<^verbatim>\<open>Date.now()\<close>. They are modelled
  over any state \<open>'s\<close> with these three operations, the state being passed along.
\<close>

record 's channel =
  ch_sendCommand :: "Command \<Rightarrow> 's \<Rightarrow> CommandResponse outcome \<times> 's"
  ch_delay :: "nat \<Rightarrow> 's \<Rightarrow> 's"
  ch_now :: "'s \<Rightarrow> int"

text \<open>
  The channel of a \<^verbatim>\<open>BaseSerialConnection\<close>. While the caller awaits the promise of one
  \<^verbatim>\<open>sendCommand\<close>, the world makes the next batch of inputs of a script; the caller then
  sees the state of its promise.
\<close>

record world =
  conn :: connection
  script :: "input list list"

definition await_sendCommand :: "Command \<Rightarrow> world \<Rightarrow> CommandResponse outcome \<times> world" where
  "await_sendCommand cmd w =
     (case sendCommand cmd (conn w) of
        (Inl e, c) \<Rightarrow> (Rejected e, w\<lparr>conn := c\<rparr>)
      | (Inr p, c) \<Rightarrow>
          let batch = (case script w of [] \<Rightarrow> [] | b # _ \<Rightarrow> b);
              c1 = foldl (\<lambda>x i. step i x) c batch
          in (settled p c1, w\<lparr>conn := c1, script := tl (script w)\<rparr>))"

definition serial_channel :: "world channel" where
  "serial_channel =
     \<lparr>ch_sendCommand = await_sendCommand,
      ch_delay = (\<lambda>d w. w\<lparr>conn := step (TimePassed d) (conn w)\<rparr>),
      ch_now = (\<lambda>w. now (conn w))\<rparr>"

text \<open>
  A channel that records every call of \<^verbatim>\<open>sendCommand\<close> with what its caller saw, in
  order. Callbacks of the caller act on the state below the record.
\<close>

type_synonym trace = "(Command \<times> CommandResponse outcome) list"

definition recording :: "'s channel \<Rightarrow> (trace \<times> 's) channel" where
  "recording ch =
     \<lparr>ch_sendCommand =
        (\<lambda>cmd ts. let r = ch_sendCommand ch cmd (snd ts)
                  in (fst r, (fst ts @ [(cmd, fst r)], snd r))),
      ch_delay = (\<lambda>d ts. (fst ts, ch_delay ch d (snd ts))),
      ch_now = (\<lambda>ts. ch_now ch (snd ts))\<rparr>"

subsection \<open>sendCommandWithRetry\<close>

text \<open>
  The loop of \<^verbatim>\<open>sendCommandWithRetry\<close> from \<^verbatim>\<open>attempt\<close> on. It is left through
  \<^verbatim>\<open>return\<close>, through \<^verbatim>\<open>break\<close>, or when \<^verbatim>\<open>attempt <= maxRetries\<close> fails, which
  happens right after a failed attempt with \<^verbatim>\<open>attempt = maxRetries\<close>; in the last two
  cases \<^verbatim>\<open>lastError\<close>, the error of that attempt, is thrown.
\<close>

function retry_loop ::
  "'s channel \<Rightarrow> Command \<Rightarrow> nat \<Rightarrow> nat \<Rightarrow> 's \<Rightarrow> CommandResponse outcome \<times> 's" where
  "retry_loop ch cmd maxRetries attempt s =
     (let r = ch_sendCommand ch cmd s
      in case fst r of
           Resolved response \<Rightarrow> (Resolved response, snd r)
         | Pending \<Rightarrow> (Pending, snd r)
         | Rejected e \<Rightarrow>
             if err_class e = DeviceBusyError \<or> err_class e = TimeoutError
             then (Rejected e, snd r)
             else if attempt < maxRetries
             then retry_loop ch cmd maxRetries (attempt + 1)
                    (ch_delay ch (100 * (attempt + 1)) (snd r))
             else (Rejected e, snd r))"
  by pat_completeness auto
termination
  by (relation "measure (\<lambda>(ch, cmd, maxRetries, attempt, s). maxRetries - attempt)") auto

declare retry_loop.simps [simp del]

definition sendCommandWithRetry ::
  "'s channel \<Rightarrow> Command \<Rightarrow> nat \<Rightarrow> 's \<Rightarrow> CommandResponse outcome \<times> 's" where
  "sendCommandWithRetry ch cmd maxRetries s = retry_loop ch cmd maxRetries 0 s"

section \<open>FileTransferManager\<close>

text \<open>
  \<^verbatim>\<open>percentage\<close> is a floating-point number and is left out of the progress report.
  The callbacks of the options act on the state.
\<close>

record FileTransferProgress =
  filename :: string
  bytesTransferred :: nat
  totalBytes :: nat
  chunkIndex :: nat
  totalChunks :: nat

record 's BulkTransferOptions =
  chunkSize :: "nat option"
  onProgress :: "(FileTransferProgress \<Rightarrow> 's \<Rightarrow> 's) option"
  onChunkComplete :: "(nat \<Rightarrow> nat \<Rightarrow> 's \<Rightarrow> 's) option"
  retryAttempts :: "nat option"

text \<open>The command that \<^verbatim>\<open>uploadSingleChunk\<close> builds.\<close>

definition chunk_command :: "string \<Rightarrow> Buffer \<Rightarrow> nat \<Rightarrow> Command" where
  "chunk_command name content flag =
     (let commandBuffer =
            [of_nat (code_value DOWNLOAD_FILE)] @ utf8 name @ [0x00] @ [of_nat flag] @ content
      in \<lparr>code = DOWNLOAD_FILE,
          data = Buf (slice commandBuffer 1 (length commandBuffer)),
          timeout = Some 10000\<rparr>)"

definition uploadSingleChunk ::
  "'s channel \<Rightarrow> string \<Rightarrow> Buffer \<Rightarrow> nat \<Rightarrow> 's \<Rightarrow> unit outcome \<times> 's" where
  "uploadSingleChunk ch name content flag s =
     (let r = sendCommandWithRetry ch (chunk_command name content flag) 2 s
      in case fst r of
           Resolved response \<Rightarrow>
             if \<not> includes_str (toString (response_data response)) ''done''
             then (Rejected \<lparr>err_class = CommunicationError,
                             message = ''Upload failed: '' @
                                       toString (response_data response)\<rparr>, snd r)
             else (Resolved (), snd r)
         | Rejected e \<Rightarrow> (Rejected e, snd r)
         | Pending \<Rightarrow> (Pending, snd r))"

text \<open>
  The retry loop of one chunk, from \<^verbatim>\<open>attempt\<close> on. \<open>Resolved\<close> is \<^verbatim>\<open>success = true\<close>;
  \<open>Rejected\<close> carries \<^verbatim>\<open>lastError\<close> when the loop ends with \<^verbatim>\<open>success = false\<close>.
\<close>

function chunk_attempts ::
  "'s channel \<Rightarrow> string \<Rightarrow> Buffer \<Rightarrow> nat \<Rightarrow> nat \<Rightarrow> nat \<Rightarrow> 's \<Rightarrow> unit outcome \<times> 's" where
  "chunk_attempts ch name chunk flag retries attempt s =
     (let r = uploadSingleChunk ch name chunk flag s
      in case fst r of
           Resolved u \<Rightarrow> (Resolved (), snd r)
         | Pending \<Rightarrow> (Pending, snd r)
         | Rejected e \<Rightarrow>
             if attempt < retries
             then chunk_attempts ch name chunk flag retries (attempt + 1)
                    (ch_delay ch (100 * 2 ^ attempt) (snd r))
             else (Rejected e, snd r))"
  by pat_completeness auto
termination
  by (relation "measure (\<lambda>(ch, name, chunk, flag, retries, attempt, s). retries - attempt)")
     auto

declare chunk_attempts.simps [simp del]

definition call_onProgress ::
  "'s BulkTransferOptions \<Rightarrow> FileTransferProgress \<Rightarrow> 's \<Rightarrow> 's" where
  "call_onProgress opts progress s =
     (case onProgress opts of Some f \<Rightarrow> f progress s | None \<Rightarrow> s)"

definition call_onChunkComplete :: "'s BulkTransferOptions \<Rightarrow> nat \<Rightarrow> nat \<Rightarrow> 's \<Rightarrow> 's" where
  "call_onChunkComplete opts i n s =
     (case onChunkComplete opts of Some f \<Rightarrow> f i n s | None \<Rightarrow> s)"

text \<open>The multi-chunk loop of \<^verbatim>\<open>uploadFile\<close>, from chunk \<open>i\<close> on.\<close>

function upload_chunks ::
  "'s channel \<Rightarrow> string \<Rightarrow> Buffer \<Rightarrow> 's BulkTransferOptions \<Rightarrow> nat \<Rightarrow> nat \<Rightarrow> nat \<Rightarrow> nat
     \<Rightarrow> nat \<Rightarrow> 's \<Rightarrow> unit outcome \<times> 's" where
  "upload_chunks ch name content opts csize retries nchunks i uploadedBytes s =
     (if i < nchunks then
        let start = i * csize;
            stop = min (start + csize) (length content);
            chunk = slice content start stop;
            isFirstChunk = (i = 0);
            flag = (if isFirstChunk then 0x01 else 0x00);
            r = chunk_attempts ch name chunk flag retries 0 s
        in case fst r of
             Pending \<Rightarrow> (Pending, snd r)
           | Rejected lastError \<Rightarrow>
               (Rejected \<lparr>err_class = CommunicationError,
                          message = ''Failed to upload chunk '' @ show_nat (i + 1) @ ''/'' @
                                    show_nat nchunks @ '' for '' @ name @ '': '' @
                                    message lastError\<rparr>, snd r)
           | Resolved u \<Rightarrow>
               let uploaded = uploadedBytes + length chunk;
                   s1 = call_onProgress opts
                          \<lparr>filename = name, bytesTransferred = uploaded,
                           totalBytes = length content, chunkIndex = i + 1,
                           totalChunks = nchunks\<rparr> (snd r);
                   s2 = call_onChunkComplete opts (i + 1) nchunks s1
               in upload_chunks ch name content opts csize retries nchunks (i + 1) uploaded s2
      else (Resolved (), s))"
  by pat_completeness auto
termination
  by (relation "measure (\<lambda>(ch, name, content, opts, csize, retries, nchunks, i, u, s). nchunks - i)")
     auto

declare upload_chunks.simps [simp del]

text \<open>\<^verbatim>\<open>Math.ceil(a / b)\<close> for natural numbers, \<open>b\<close> positive.\<close>

definition ceil_div :: "nat \<Rightarrow> nat \<Rightarrow> nat" where
  "ceil_div a b = (a + b - 1) div b"

definition uploadFile ::
  "'s channel \<Rightarrow> string \<Rightarrow> Buffer \<Rightarrow> bool \<Rightarrow> 's BulkTransferOptions \<Rightarrow> 's
     \<Rightarrow> unit outcome \<times> 's" where
  "uploadFile ch name content overwrite opts s =
     (let csize = or_default (chunkSize opts) maxChunkSize;
          retries = or_default (retryAttempts opts) 3
      in if length content \<le> csize then
           let r = uploadSingleChunk ch name content (if overwrite then 0x01 else 0x00) s
           in case fst r of
                Resolved u \<Rightarrow>
                  (Resolved (),
                   call_onProgress opts
                     \<lparr>filename = name, bytesTransferred = length content,
                      totalBytes = length content, chunkIndex = 1, totalChunks = 1\<rparr>
                     (snd r))
              | Rejected e \<Rightarrow> (Rejected e, snd r)
              | Pending \<Rightarrow> (Pending, snd r)
         else
           upload_chunks ch name content opts csize retries (ceil_div (length content) csize)
             0 0 s)"

record validation =
  valid :: bool
  error :: "string option"

text \<open>The character class \<^verbatim>\<open>[a-zA-Z0-9._/-]\<close>, by the codes of its ranges and members.\<close>

definition class_char :: "char \<Rightarrow> bool" where
  "class_char c =
     (let n = (of_char c :: nat)
      in (97 \<le> n \<and> n \<le> 122) \<or> (65 \<le> n \<and> n \<le> 90) \<or> (48 \<le> n \<and> n \<le> 57)
         \<or> n = 46 \<or> n = 95 \<or> n = 47 \<or> n = 45)"

text \<open>\<^verbatim>\<open>/^[a-zA-Z0-9._/-]+$/.test(s)\<close>: one or more characters, all of the class.\<close>

definition regex_test :: "string \<Rightarrow> bool" where
  "regex_test s = (s \<noteq> [] \<and> list_all class_char s)"

definition startsWith :: "string \<Rightarrow> string \<Rightarrow> bool" where
  "startsWith s t = (take (length t) s = t)"

definition validateFilename :: "string \<Rightarrow> validation" where
  "validateFilename name =
     (if length name > 28
      then \<lparr>valid = False, error = Some ''Filename too long (max 28 characters)''\<rparr>
      else if \<not> regex_test name
      then \<lparr>valid = False, error = Some ''Filename contains invalid characters''\<rparr>
      else if startsWith name ''/'' \<and> length name = 1
      then \<lparr>valid = False, error = Some ''Cannot write to root directory''\<rparr>
      else \<lparr>valid = True, error = None\<rparr>)"

section \<open>DeviceManager\<close>

record ExecutionResult =
  exec_output :: string
  exec_error :: "string option"
  exitCode :: nat
  executionTime :: int
  exec_timestamp :: int

definition executeCode :: "'s channel \<Rightarrow> string \<Rightarrow> 's \<Rightarrow> ExecutionResult outcome \<times> 's" where
  "executeCode ch src s =
     (let startTime = ch_now ch s;
          cmd = \<lparr>code = EXEC, data = Str src, timeout = None\<rparr>;
          r = ch_sendCommand ch cmd s
      in case fst r of
           Resolved response \<Rightarrow>
             let out = toString (response_data response);
                 t = ch_now ch (snd r) - startTime
             in (Resolved \<lparr>exec_output = out, exec_error = None,
                           exitCode = (if includes_str out ''done'' then 0 else 1),
                           executionTime = t, exec_timestamp = ch_now ch (snd r)\<rparr>, snd r)
         | Rejected e \<Rightarrow>
             let t = ch_now ch (snd r) - startTime
             in (Resolved \<lparr>exec_output = '''', exec_error = Some (message e), exitCode = 1,
                           executionTime = t, exec_timestamp = ch_now ch (snd r)\<rparr>, snd r)
         | Pending \<Rightarrow> (Pending, snd r))"

text \<open>The options of a caller, for a recording channel.\<close>

definition lift_options :: "'s BulkTransferOptions \<Rightarrow> (trace \<times> 's) BulkTransferOptions" where
  "lift_options opts =
     \<lparr>chunkSize = chunkSize opts,
      onProgress = map_option (\<lambda>f p ts. (fst ts, f p (snd ts))) (onProgress opts),
      onChunkComplete = map_option (\<lambda>f i n ts. (fst ts, f i n (snd ts))) (onChunkComplete opts),
      retryAttempts = retryAttempts opts\<rparr>"

section \<open>What the claims are stated with\<close>

text \<open>The allowed set of characters of a file name, written out.\<close>

definition allowed_chars :: string where
  "allowed_chars = ''abcdefghijklmnopqrstuvwxyzABCDEFGHIJKLMNOPQRSTUVWXYZ0123456789._/-''"

text \<open>An error that \<^verbatim>\<open>sendCommandWithRetry\<close> retries after.\<close>

definition retried :: "CommandResponse outcome \<Rightarrow> bool" where
  "retried r =
     (case r of
        Rejected e \<Rightarrow> err_class e \<noteq> DeviceBusyError \<and> err_class e \<noteq> TimeoutError
      | _ \<Rightarrow> False)"


definition chunk_bytes :: "Buffer \<Rightarrow> nat \<Rightarrow> nat \<Rightarrow> Buffer" where
  "chunk_bytes P C i = slice P (i * C) (min (i * C + C) (length P))"

definition chunk_flag :: "Buffer \<Rightarrow> nat \<Rightarrow> bool \<Rightarrow> nat \<Rightarrow> nat" where
  "chunk_flag P C overwrite i =
     (if length P \<le> C then (if overwrite then 1 else 0) else if i = 0 then 1 else 0)"

text \<open>The calls of \<^verbatim>\<open>sendCommand\<close> that one \<^verbatim>\<open>sendCommandWithRetry\<close> makes.\<close>

definition retry_trace :: "'s channel \<Rightarrow> Command \<Rightarrow> nat \<Rightarrow> 's \<Rightarrow> trace" where
  "retry_trace ch cmd maxRetries s =
     fst (snd (sendCommandWithRetry (recording ch) cmd maxRetries ([], s)))"

text \<open>The calls of \<^verbatim>\<open>sendCommand\<close> that one \<^verbatim>\<open>uploadFile\<close> makes.\<close>

definition upload_trace ::
  "'s channel \<Rightarrow> string \<Rightarrow> Buffer \<Rightarrow> bool \<Rightarrow> 's BulkTransferOptions \<Rightarrow> 's \<Rightarrow> trace" where
  "upload_trace ch name content overwrite opts s =
     fst (snd (uploadFile (recording ch) name content overwrite (lift_options opts) ([], s)))"


subsection \<open>Concrete connections, devices and inputs\<close>

text \<open>A connection whose port has opened, and one command.\<close>

definition open_connection :: connection where
  "open_connection = step PortOpened (new_connection None)"

definition online_command :: Command where
  "online_command = \<lparr>code = IS_ONLINE, data = Buf [], timeout = None\<rparr>"

text \<open>The connection after the command was sent and written: its promise is 0, its timer 1.\<close>

definition awaiting :: connection where
  "awaiting = step (WriteEnded None) (snd (sendCommand online_command open_connection))"

text \<open>The response frame of a device that reports status 0 and the text \<^verbatim>\<open>done\<close>.\<close>

definition done_frame :: Buffer where
  "done_frame = createFrame ([0x00] @ utf8 ''done'')"

text \<open>
  A world whose port never opened, one whose connection awaits the response of a command,
  and one whose port is open and whose device answers the first command with
  \<open>done_frame\<close>.
\<close>

definition closed_world :: world where
  "closed_world = \<lparr>conn = new_connection None, script = []\<rparr>"

definition busy_world :: world where
  "busy_world = \<lparr>conn = awaiting, script = []\<rparr>"

definition open_world :: world where
  "open_world = \<lparr>conn = open_connection, script = [[WriteEnded None, DataIn done_frame]]\<rparr>"

text \<open>A device that answers every command at once with a given text, as a channel.\<close>

definition answering :: "string \<Rightarrow> unit channel" where
  "answering reply =
     \<lparr>ch_sendCommand =
        (\<lambda>cmd s. (Resolved \<lparr>status = SUCCESS, response_data = utf8 reply, timestamp = 0,
                              duration = 0\<rparr>, s)),
      ch_delay = (\<lambda>d s. s), ch_now = (\<lambda>s. 0)\<rparr>"



definition no_options :: "'s BulkTransferOptions" where
  "no_options =
     \<lparr>chunkSize = None, onProgress = None, onChunkComplete = None, retryAttempts = None\<rparr>"

text \<open>A file name of 30 characters of the allowed set.\<close>

definition name30 :: string where
  "name30 = ''abcdefghijklmnopqrstuvwxyz.txt''"

section \<open>The frame codec\<close>

subsection \<open>The checksum stays within 16 bits\<close>

lemma CRC_TABLE_bound: "i < 16 \<Longrightarrow> CRC_TABLE ! i < 65536"
proof -
  assume i: "i < 16"
  have "\<forall>x \<in> set CRC_TABLE. x < 65536" unfolding CRC_TABLE_def by simp
  moreover have "length CRC_TABLE = 16" unfolding CRC_TABLE_def by simp
  ultimately show ?thesis using i by (metis nth_mem)
qed

lemma and_15_less: "(n::nat) AND 15 < 16"
proof -
  have "n AND 15 = take_bit 4 n" by (simp add: take_bit_eq_mask mask_eq_exp_minus_1)
  then show ?thesis by (simp add: take_bit_eq_mod)
qed

lemma xor_bound16: "(a::nat) < 65536 \<Longrightarrow> b < 65536 \<Longrightarrow> a XOR b < 65536"
proof -
  assume a: "a < 65536" and b: "b < 65536"
  have "take_bit 16 (a XOR b) = take_bit 16 a XOR take_bit 16 b" by (rule take_bit_xor)
  also have "\<dots> = a XOR b" using a b by (simp add: take_bit_nat_eq_self)
  finally have e: "take_bit 16 (a XOR b) = a XOR b" .
  have "take_bit 16 (a XOR b) < 2 ^ 16" by (rule take_bit_nat_less_exp)
  then show ?thesis unfolding e by simp
qed

lemma drop4_bound: "(c::nat) < 65536 \<Longrightarrow> drop_bit 4 c < 65536"
  by (simp add: drop_bit_eq_div)

lemma crc_byte_bound: "c < 65536 \<Longrightarrow> crc_byte c b < 65536"
  unfolding crc_byte_def Let_def
  by (intro xor_bound16 CRC_TABLE_bound and_15_less drop4_bound)

lemma foldl_crc_byte_bound: "c < 65536 \<Longrightarrow> foldl crc_byte c buf < 65536"
  by (induction buf arbitrary: c) (simp_all add: crc_byte_bound)

lemma calculateCrc_bound: "calculateCrc buf < 65536"
  unfolding calculateCrc_def by (rule foldl_crc_byte_bound) simp

text \<open>The two checksum bytes of a frame, read back as \<^verbatim>\<open>parseFrame\<close> reads them.\<close>

lemma crc_bytes_roundtrip:
  assumes "(c::nat) < 65536"
  shows "push_bit 8 (unat (of_nat (drop_bit 8 c) :: byte))
           OR unat (of_nat (c AND 0x00ff) :: byte) = c"
proof -
  have hi: "unat (of_nat (drop_bit 8 c) :: byte) = drop_bit 8 c"
    using assms by (simp add: unat_of_nat drop_bit_eq_div)
  have m: "c AND 0x00ff = take_bit 8 c"
    by (simp add: take_bit_eq_mask mask_eq_exp_minus_1)
  have lo: "unat (of_nat (c AND 0x00ff) :: byte) = take_bit 8 c"
    unfolding m by (simp add: unat_of_nat take_bit_eq_mod)
  have "push_bit 8 (drop_bit 8 c) OR take_bit 8 c = c"
    by (rule bit_eqI) (auto simp: bit_simps)
  then show ?thesis by (simp only: hi lo)
qed

subsection \<open>The layout of a frame\<close>

lemma isFrameComplete_createFrame: "isFrameComplete (createFrame (x # xs))"
  by (simp add: isFrameComplete_def createFrame_def Let_def headerBytes_def footerBytes_def
      slice_def slice_last_def)

lemma slice_last_append: "length ft = n \<Longrightarrow> slice_last (pre @ ft) n = ft"
  by (simp add: slice_last_def)

lemma slice_payload: "slice (headerBytes @ [l] @ cb @ rest) 4 (4 + length cb) = cb"
  by (simp add: slice_def headerBytes_def)

lemma at_frame:
  "at (headerBytes @ [l] @ cb @ rest) 3 = Some l"
  "at (headerBytes @ [l] @ cb @ [h, lo] @ rest) (4 + length cb) = Some h"
  "at (headerBytes @ [l] @ cb @ [h, lo] @ rest) (4 + length cb + 1) = Some lo"
  by (simp_all add: at_def headerBytes_def nth_append)

lemma code_value_less: "code_value cmd < 256"
  by (cases cmd) simp_all

lemma unat_byte: "k < 256 \<Longrightarrow> unat (of_nat k :: byte) = k"
  by (simp add: unat_of_nat)

lemma parseFrame_createFrame:
  assumes "length (x # xs) < 256"
  shows "parseFrame (createFrame (x # xs)) =
           Some \<lparr>header = headerBytes, length_field = length (x # xs),
                  command = Some (unat x), frame_data = xs,
                  crc = calculateCrc (x # xs), footer = footerBytes\<rparr>"
proof -
  let ?cb = "x # xs"
  let ?c = "calculateCrc ?cb"
  let ?h = "of_nat (drop_bit 8 ?c) :: byte"
  let ?l = "of_nat (?c AND 0x00ff) :: byte"
  let ?n = "of_nat (length ?cb) :: byte"
  have fr: "createFrame ?cb = headerBytes @ [?n] @ ?cb @ [?h, ?l] @ footerBytes"
    by (simp add: createFrame_def Let_def)
  have complete: "isFrameComplete (createFrame ?cb)"
    by (rule isFrameComplete_createFrame)
  have len: "toInt32 (at (createFrame ?cb) 3) = length ?cb"
    unfolding fr at_frame toInt32_def option.case using assms by (rule unat_byte)
  have crcr: "push_bit 8 (toInt32 (at (createFrame ?cb) (4 + length ?cb)))
                OR toInt32 (at (createFrame ?cb) (4 + length ?cb + 1)) = ?c"
    unfolding fr at_frame toInt32_def option.case
    by (rule crc_bytes_roundtrip) (rule calculateCrc_bound)
  have sl: "slice (createFrame ?cb) 4 (4 + length ?cb) = ?cb"
    unfolding fr by (rule slice_payload)
  have hd3: "slice (createFrame ?cb) 0 3 = headerBytes"
    unfolding fr by (simp add: slice_def headerBytes_def)
  have ft: "slice_last (createFrame ?cb) 3 = footerBytes"
  proof -
    have "length footerBytes = 3" by (simp add: footerBytes_def)
    moreover have "createFrame ?cb = (headerBytes @ [?n] @ ?cb @ [?h, ?l]) @ footerBytes"
      unfolding fr by simp
    ultimately show ?thesis by (simp only: slice_last_append)
  qed
  have c0: "map_option unat (at ?cb 0) = Some (unat x)"
    by (simp add: at_def)
  have rest: "slice ?cb 1 (length ?cb) = xs"
    by (simp add: slice_def)
  show ?thesis
    unfolding parseFrame_def Let_def
    by (simp only: complete len crcr sl hd3 ft c0 rest simp_thms if_False)
qed

lemma extractResponseData_createFrame:
  "extractResponseData (createFrame (0 # xs)) = Inr xs"
proof -
  let ?cb = "0 # xs"
  let ?c = "calculateCrc ?cb"
  let ?h = "of_nat (drop_bit 8 ?c) :: byte"
  let ?l = "of_nat (?c AND 0x00ff) :: byte"
  let ?n = "of_nat (length ?cb) :: byte"
  have fr: "createFrame ?cb = headerBytes @ [?n, 0] @ xs @ [?h, ?l] @ footerBytes"
    by (simp add: createFrame_def Let_def)
  have st: "toInt32 (at (createFrame ?cb) 4) = 0"
    unfolding fr by (simp add: at_def toInt32_def headerBytes_def)
  have sl: "slice (createFrame ?cb) 5 (length (createFrame ?cb) - 5) = xs"
    unfolding fr by (simp add: slice_def headerBytes_def footerBytes_def)
  show ?thesis
    unfolding extractResponseData_def Let_def
    by (simp only: isFrameComplete_createFrame st sl simp_thms if_False if_True)
qed

text \<open>
  Claim C5. For every command code and every data payload such that the frame payload
  (the command byte followed by the data) is shorter than 256 bytes, \<^verbatim>\<open>parseFrame\<close> of
  \<^verbatim>\<open>createFrame\<close> of \<^verbatim>\<open>createCommandBuffer\<close> is a frame whose command is the numeric
  value of the code and whose data are the bytes given: the buffer itself for a buffer,
  the UTF-8 bytes of the text for a string.
\<close>

theorem C5_frame_roundtrip:
  assumes "length (createCommandBuffer cmd d) < 256"
  shows "parseFrame (createFrame (createCommandBuffer cmd d)) =
           Some \<lparr>header = [0xaa, 0xab, 0xaa],
                  length_field = 1 + length (case d of Str s \<Rightarrow> utf8 s | Buf b \<Rightarrow> b),
                  command = Some (code_value cmd),
                  frame_data = (case d of Str s \<Rightarrow> utf8 s | Buf b \<Rightarrow> b),
                  crc = calculateCrc
                          (of_nat (code_value cmd) #
                           (case d of Str s \<Rightarrow> utf8 s | Buf b \<Rightarrow> b)),
                  footer = [0xab, 0xcc, 0xab]\<rparr>"
proof -
  have cb: "createCommandBuffer cmd d =
              of_nat (code_value cmd) # (case d of Str s \<Rightarrow> utf8 s | Buf b \<Rightarrow> b)"
    by (simp add: createCommandBuffer_def payload_bytes_def)
  have u: "unat (of_nat (code_value cmd) :: byte) = code_value cmd"
    using code_value_less [of cmd] by (rule unat_byte)
  show ?thesis
    using assms unfolding cb
    by (simp add: parseFrame_createFrame u headerBytes_def footerBytes_def)
qed

theorem C5_frame_roundtrip_witness:
  "length (createCommandBuffer DOWNLOAD_FILE (Buf [0x61, 0x00, 0x01, 0xff])) < 256
   \<and> parseFrame (createFrame (createCommandBuffer DOWNLOAD_FILE (Buf [0x61, 0x00, 0x01, 0xff])))
       = Some \<lparr>header = [0xaa, 0xab, 0xaa], length_field = 5, command = Some 6,
                frame_data = [0x61, 0x00, 0x01, 0xff],
                crc = calculateCrc [0x06, 0x61, 0x00, 0x01, 0xff],
                footer = [0xab, 0xcc, 0xab]\<rparr>
   \<and> length (createCommandBuffer EXEC (Str ''ab'')) < 256
   \<and> parseFrame (createFrame (createCommandBuffer EXEC (Str ''ab''))) =
       Some \<lparr>header = [0xaa, 0xab, 0xaa], length_field = 3, command = Some 2,
              frame_data = [0x61, 0x62], crc = calculateCrc [0x02, 0x61, 0x62],
              footer = [0xab, 0xcc, 0xab]\<rparr>"
proof -
  have l1: "length (createCommandBuffer DOWNLOAD_FILE (Buf [0x61, 0x00, 0x01, 0xff])) < 256"
    by (simp add: createCommandBuffer_def payload_bytes_def)
  have l2: "length (createCommandBuffer EXEC (Str ''ab'')) < 256"
    by (simp add: createCommandBuffer_def payload_bytes_def utf8_def utf8_char_def)
  have p: "utf8 ''ab'' = [0x61, 0x62]"
    by (simp add: utf8_def utf8_char_def)
  show ?thesis
    using l1 l2 C5_frame_roundtrip [OF l1] C5_frame_roundtrip [OF l2]
    by (simp add: p)
qed

section \<open>File names\<close>

lemma class_char_iff: "class_char c \<longleftrightarrow> c \<in> set allowed_chars"
proof -
  have inj: "c \<in> set allowed_chars \<longleftrightarrow> (of_char c :: nat) \<in> of_char ` set allowed_chars"
    by (auto simp: inj_image_mem_iff [OF inj_of_char])
  have "(of_char c :: nat) \<in> of_char ` set allowed_chars \<longleftrightarrow> class_char c"
    unfolding class_char_def Let_def allowed_chars_def
    by (simp del: of_char_eq_iff) arith
  with inj show ?thesis by simp
qed

lemma regex_test_iff: "regex_test name \<longleftrightarrow> name \<noteq> [] \<and> set name \<subseteq> set allowed_chars"
  by (auto simp: regex_test_def list_all_iff class_char_iff)

lemma root_directory_iff: "startsWith name ''/'' \<and> length name = 1 \<longleftrightarrow> name = ''/''"
  by (cases name) (auto simp: startsWith_def)

text \<open>
  Claim C10. \<^verbatim>\<open>validateFilename\<close> accepts a file name if and only if it is not empty, has
  at most 28 characters, all of them in \<^verbatim>\<open>[a-zA-Z0-9._/-]\<close>, and is not the string
  \<^verbatim>\<open>/\<close>.
\<close>

theorem C10_validateFilename_accepts:
  "valid (validateFilename name) \<longleftrightarrow>
     name \<noteq> [] \<and> length name \<le> 28 \<and> set name \<subseteq> set allowed_chars \<and> name \<noteq> ''/''"
  unfolding validateFilename_def regex_test_iff root_directory_iff by auto

theorem C10_validateFilename_accepts_witness:
  "valid (validateFilename ''/flash/main.py'') \<and> \<not> valid (validateFilename '''')
   \<and> \<not> valid (validateFilename ''/'') \<and> \<not> valid (validateFilename ''a b'')
   \<and> \<not> valid (validateFilename name30)"
  using C10_validateFilename_accepts [of "''/flash/main.py''"]
    C10_validateFilename_accepts [of "''''"] C10_validateFilename_accepts [of "''/''"]
    C10_validateFilename_accepts [of "''a b''"] C10_validateFilename_accepts [of name30]
  by (simp add: allowed_chars_def name30_def)

section \<open>The connection\<close>

lemma clearCommandState_fields [simp]:
  "isBusy (clearCommandState s) = False"
  "isConnected (clearCommandState s) = isConnected s"
  "currentResolve (clearCommandState s) = None"
  "currentReject (clearCommandState s) = None"
  "commandTimeout (clearCommandState s) = None"
  "receivedBuffer (clearCommandState s) = []"
  "calls (clearCommandState s) = calls s"
  "written (clearCommandState s) = written s"
  "next_id (clearCommandState s) = next_id s"
  "options_timeout (clearCommandState s) = options_timeout s"
  "now (clearCommandState s) = now s"
  by (simp_all add: clearCommandState_def Let_def emit_def clearTimeout_def
      split: option.split)

lemma emit_fields [simp]:
  "isBusy (emit ev s) = isBusy s"
  "isConnected (emit ev s) = isConnected s"
  "currentResolve (emit ev s) = currentResolve s"
  "currentReject (emit ev s) = currentReject s"
  "commandTimeout (emit ev s) = commandTimeout s"
  "receivedBuffer (emit ev s) = receivedBuffer s"
  "calls (emit ev s) = calls s"
  "written (emit ev s) = written s"
  "next_id (emit ev s) = next_id s"
  "timers (emit ev s) = timers s"
  "options_timeout (emit ev s) = options_timeout s"
  "now (emit ev s) = now s"
  by (simp_all add: emit_def)

text \<open>
  When a handler reads \<^verbatim>\<open>this.currentResolve\<close> or \<^verbatim>\<open>this.currentReject\<close>, the field
  has just been cleared: neither handler calls the function of the promise.
\<close>

lemma handleCommandSuccess_eq: "handleCommandSuccess response s = clearCommandState s"
  by (simp add: handleCommandSuccess_def Let_def)

lemma handleCommandError_eq:
  "handleCommandError e s = emit (ErrorEvent e) (clearCommandState s)"
  by (simp add: handleCommandError_def Let_def)

lemmas step_defs =
  step_def sendCommandInternal_resume_def onDataReceived_def processReceivedFrame_def
  handleCommandSuccess_eq handleCommandError_eq handleCommandTimeout_def onConnected_def
  onDisconnected_def onError_def Let_def

lemma calls_step: "calls (step i s) = calls s"
  by (cases i) (simp_all add: step_defs split: option.split sum.split)

lemma calls_sendCommand: "calls (snd (sendCommand cmd s)) = calls s"
  by (simp add: sendCommand_def sendCommandInternal_def Let_def)

lemma calls_run: "calls (run as s) = calls s"
  unfolding run_def
  by (induction as arbitrary: s)
     (simp_all add: act_def calls_step calls_sendCommand split: action.split)

text \<open>In no history of a connection is a promise of \<^verbatim>\<open>sendCommand\<close> ever settled.\<close>

lemma never_settled: "settled p (run as (new_connection t)) = Pending"
  by (simp add: settled_def calls_of_def calls_run new_connection_def)

subsection \<open>A busy connection is connected\<close>

lemma busy_connected_step:
  "(isBusy s \<longrightarrow> isConnected s) \<Longrightarrow> isBusy (step i s) \<longrightarrow> isConnected (step i s)"
  by (cases i) (auto simp add: step_defs split: option.split sum.split)

lemma busy_connected_sendCommand:
  "(isBusy s \<longrightarrow> isConnected s)
   \<Longrightarrow> isBusy (snd (sendCommand cmd s)) \<longrightarrow> isConnected (snd (sendCommand cmd s))"
  by (simp add: sendCommand_def sendCommandInternal_def Let_def)

lemma busy_connected_run:
  "(isBusy s \<longrightarrow> isConnected s) \<Longrightarrow> isBusy (run as s) \<longrightarrow> isConnected (run as s)"
  unfolding run_def
proof (induction as arbitrary: s)
  case Nil
  then show ?case by simp
next
  case (Cons a as)
  have "isBusy (act s a) \<longrightarrow> isConnected (act s a)"
    using Cons.prems busy_connected_step busy_connected_sendCommand
    by (cases a) (simp_all add: act_def)
  then show ?case using Cons.IH by simp
qed

text \<open>
  Claim C7. In every state that a connection reaches in which a command is pending
  (\<^verbatim>\<open>isBusy\<close>), \<^verbatim>\<open>sendCommand\<close> fails with \<^verbatim>\<open>DeviceBusyError\<close> and leaves the whole
  state as it was: nothing is written to the transport and the pending command is
  untouched.
\<close>

theorem C7_busy_rejects:
  assumes "isBusy (run as (new_connection t))"
  shows "sendCommand cmd (run as (new_connection t)) =
           (Inl \<lparr>err_class = DeviceBusyError,
                 message = ''Device is busy with another operation''\<rparr>,
            run as (new_connection t))"
proof -
  have "isBusy (new_connection t) \<longrightarrow> isConnected (new_connection t)"
    by (simp add: new_connection_def)
  then have "isBusy (run as (new_connection t)) \<longrightarrow> isConnected (run as (new_connection t))"
    by (rule busy_connected_run)
  with assms have "isConnected (run as (new_connection t))" by simp
  with assms show ?thesis by (simp add: sendCommand_def)
qed

subsection \<open>One command, sent and written\<close>

lemma open_connection_fields:
  "isConnected open_connection" "\<not> isBusy open_connection" "next_id open_connection = 0"
  "calls open_connection = []" "written open_connection = []"
  "options_timeout open_connection = 5000" "timers open_connection = []"
  by (simp_all add: open_connection_def step_def onConnected_def new_connection_def
      or_default_def defaultTimeout_def emit_def)

lemma awaiting_fields:
  "isConnected awaiting" "isBusy awaiting" "currentResolve awaiting = Some 0"
  "currentReject awaiting = Some 0" "commandTimeout awaiting = Some 1"
  "timers awaiting = [(1, 5000)]" "receivedBuffer awaiting = []" "next_id awaiting = 2"
  "calls awaiting = []"
  by (simp_all add: awaiting_def step_def sendCommandInternal_resume_def sendCommand_def
      sendCommandInternal_def open_connection_fields Let_def or_default_def
      online_command_def)

lemma awaiting_run:
  "awaiting = run [Env PortOpened, Send online_command, Env (WriteEnded None)]
                (new_connection None)"
  by (simp add: awaiting_def open_connection_def run_def act_def)

theorem C7_busy_rejects_witness:
  "isBusy awaiting \<and>
   sendCommand online_command awaiting =
     (Inl \<lparr>err_class = DeviceBusyError, message = ''Device is busy with another operation''\<rparr>,
      awaiting)"
  using C7_busy_rejects
    [of "[Env PortOpened, Send online_command, Env (WriteEnded None)]" None online_command]
  by (simp add: awaiting_run [symmetric] awaiting_fields)

lemma done_frame_complete: "isFrameComplete done_frame"
  unfolding done_frame_def by (simp add: isFrameComplete_createFrame)

lemma done_frame_valid: "parseFrame done_frame \<noteq> None"
  unfolding done_frame_def
  by (simp add: parseFrame_createFrame utf8_def utf8_char_def)

lemma done_frame_data: "extractResponseData done_frame = Inr (utf8 ''done'')"
  unfolding done_frame_def by (simp add: extractResponseData_createFrame)

text \<open>
  Claim C1, at one command. The connection awaits the response of promise 0, and the
  bytes that arrive are a complete frame with a valid CRC and status 0. The command state
  is cleared, but no call of \<^verbatim>\<open>resolve\<close> is made: the promise stays pending.
\<close>

theorem C1_response_not_delivered:
  "isBusy awaiting \<and> currentResolve awaiting = Some 0
   \<and> isFrameComplete (receivedBuffer awaiting @ done_frame)
   \<and> parseFrame (receivedBuffer awaiting @ done_frame) \<noteq> None
   \<and> extractResponseData (receivedBuffer awaiting @ done_frame) = Inr (utf8 ''done'')
   \<and> calls_of 0 (step (DataIn done_frame) awaiting) = []
   \<and> settled 0 (step (DataIn done_frame) awaiting) = Pending
   \<and> \<not> isBusy (step (DataIn done_frame) awaiting)
   \<and> timers (step (DataIn done_frame) awaiting) = []"
proof -
  let ?s = "step (DataIn done_frame) awaiting"
  have c: "calls_of 0 ?s = []" by (simp add: calls_of_def calls_step awaiting_fields)
  have p: "settled 0 ?s = Pending" unfolding settled_def c by simp
  have s: "?s = clearCommandState
                  (emit (DataEvent done_frame) (awaiting\<lparr>receivedBuffer := done_frame\<rparr>))"
    by (simp add: step_defs awaiting_fields done_frame_complete done_frame_data emit_def)
  have b: "\<not> isBusy ?s" unfolding s by simp
  have t: "timers ?s = []"
    unfolding s
    by (simp add: clearCommandState_def Let_def emit_def clearTimeout_def awaiting_fields)
  show ?thesis
    using b t c p
    by (simp add: awaiting_fields done_frame_complete done_frame_valid done_frame_data)
qed

text \<open>
  Claim C2, at one command. The timer of the command fires while promise 0 is pending.
  The channel returns to idle and accepts the next command, but no call of \<^verbatim>\<open>reject\<close>
  is made: the promise of the command that timed out stays pending.
\<close>

theorem C2_timeout_not_delivered:
  "isBusy awaiting \<and> currentReject awaiting = Some 0 \<and> timers awaiting = [(1, 5000)]
   \<and> calls_of 0 (step (TimerFired 1) awaiting) = []
   \<and> settled 0 (step (TimerFired 1) awaiting) = Pending
   \<and> \<not> isBusy (step (TimerFired 1) awaiting)
   \<and> currentResolve (step (TimerFired 1) awaiting) = None
   \<and> currentReject (step (TimerFired 1) awaiting) = None
   \<and> fst (sendCommand online_command (step (TimerFired 1) awaiting)) = Inr 2"
proof -
  let ?s = "step (TimerFired 1) awaiting"
  have c: "calls_of 0 ?s = []" by (simp add: calls_of_def calls_step awaiting_fields)
  have p: "settled 0 ?s = Pending" unfolding settled_def c by simp
  have f: "\<not> isBusy ?s" "isConnected ?s" "currentResolve ?s = None" "currentReject ?s = None"
    "next_id ?s = 2"
    by (simp_all add: step_defs awaiting_fields)
  have n: "fst (sendCommand online_command ?s) = Inr 2"
    using f by (simp add: sendCommand_def Let_def)
  show ?thesis
    using f n c p by (simp add: awaiting_fields)
qed

section \<open>Retrying a command\<close>

lemma recording_simps [simp]:
  "ch_sendCommand (recording ch) cmd ts =
     (fst (ch_sendCommand ch cmd (snd ts)),
      (fst ts @ [(cmd, fst (ch_sendCommand ch cmd (snd ts)))],
       snd (ch_sendCommand ch cmd (snd ts))))"
  "ch_delay (recording ch) d ts = (fst ts, ch_delay ch d (snd ts))"
  "ch_now (recording ch) ts = ch_now ch (snd ts)"
  by (simp_all add: recording_def Let_def)

text \<open>
  The calls of the loop from \<open>attempt = a\<close> on: at most \<open>m - a + 1\<close>, each but the last
  one failed with an error that is retried, and the last one is the result.
\<close>

lemma retry_loop_trace:
  "\<exists>ext. fst (snd (retry_loop (recording ch) cmd m a (tr, s))) = tr @ ext
         \<and> ext \<noteq> [] \<and> length ext \<le> m - a + 1
         \<and> (\<forall>x \<in> set (butlast ext). retried (snd x))
         \<and> (length ext < m - a + 1 \<longrightarrow> \<not> retried (snd (last ext)))
         \<and> (\<forall>x \<in> set ext. fst x = cmd)
         \<and> fst (retry_loop (recording ch) cmd m a (tr, s)) = snd (last ext)"
proof (induction "m - a" arbitrary: a tr s)
  case 0
  then have am: "\<not> a < m" by simp
  let ?r = "ch_sendCommand ch cmd s"
  show ?case
    apply (rule exI [of _ "[(cmd, fst ?r)]"])
    apply (subst (1 2) retry_loop.simps)
    using am
    apply (cases "fst ?r")
    apply (simp_all add: Let_def retried_def)
    done
next
  case (Suc k)
  then have am: "a < m" and k: "k = m - (a + 1)" by simp_all
  let ?r = "ch_sendCommand ch cmd s"
  show ?case
  proof (cases "retried (fst ?r)")
    case False
    show ?thesis
      apply (rule exI [of _ "[(cmd, fst ?r)]"])
      apply (subst (1 2) retry_loop.simps)
      using False am
      apply (cases "fst ?r")
      apply (auto simp add: Let_def retried_def)
      done
  next
    case True
    then obtain e where e: "fst ?r = Rejected e" "err_class e \<noteq> DeviceBusyError"
      "err_class e \<noteq> TimeoutError"
      by (cases "fst ?r") (simp_all add: retried_def)
    let ?tr = "tr @ [(cmd, fst ?r)]"
    let ?s = "ch_delay ch (100 * (a + 1)) (snd ?r)"
    have unf: "retry_loop (recording ch) cmd m a (tr, s) =
               retry_loop (recording ch) cmd m (a + 1) (?tr, ?s)"
      by (subst retry_loop.simps) (simp add: Let_def e am)
    from Suc.hyps(1) [OF k, of ?tr ?s] obtain ext where
      ext: "fst (snd (retry_loop (recording ch) cmd m (a + 1) (?tr, ?s))) = ?tr @ ext"
        "ext \<noteq> []" "length ext \<le> m - (a + 1) + 1"
        "\<forall>x \<in> set (butlast ext). retried (snd x)"
        "length ext < m - (a + 1) + 1 \<longrightarrow> \<not> retried (snd (last ext))"
        "\<forall>x \<in> set ext. fst x = cmd"
        "fst (retry_loop (recording ch) cmd m (a + 1) (?tr, ?s)) = snd (last ext)"
      by blast
    show ?thesis
      apply (rule exI [of _ "(cmd, fst ?r) # ext"])
      unfolding unf
      using ext am True
      apply (auto simp add: butlast_append)
      done
  qed
qed

subsection \<open>A connection that is not open\<close>

lemma await_sendCommand_closed:
  "\<not> isConnected (conn w) \<Longrightarrow>
   await_sendCommand cmd w =
     (Rejected \<lparr>err_class = CommunicationError, message = ''Not connected to device''\<rparr>, w)"
  by (simp add: await_sendCommand_def sendCommand_def)

lemma delay_closed:
  "isConnected (conn (ch_delay serial_channel d w)) = isConnected (conn w)"
  by (simp add: serial_channel_def step_def)

lemma retry_loop_closed:
  "\<not> isConnected (conn w) \<Longrightarrow>
   fst (snd (retry_loop (recording serial_channel) cmd m a (tr, w))) =
     tr @ replicate (m - a + 1)
            (cmd, Rejected \<lparr>err_class = CommunicationError,
                            message = ''Not connected to device''\<rparr>)"
proof (induction "m - a" arbitrary: a tr w)
  case 0
  then show ?case
    by (subst retry_loop.simps)
       (simp add: Let_def serial_channel_def await_sendCommand_closed)
next
  case (Suc k)
  then have am: "a < m" and k: "k = m - (a + 1)" by simp_all
  let ?e = "\<lparr>err_class = CommunicationError, message = ''Not connected to device''\<rparr>"
  let ?w = "ch_delay serial_channel (100 * (a + 1)) w"
  have c: "\<not> isConnected (conn ?w)" using Suc.prems by (simp add: delay_closed)
  let ?x = "(cmd, Rejected ?e)"
  have unf: "retry_loop (recording serial_channel) cmd m a (tr, w) =
        retry_loop (recording serial_channel) cmd m (a + 1) (tr @ [?x], ?w)"
    using Suc.prems am
    by (subst retry_loop.simps)
       (simp add: Let_def serial_channel_def await_sendCommand_closed)
  have ih: "fst (snd (retry_loop (recording serial_channel) cmd m (a + 1) (tr @ [?x], ?w))) =
              (tr @ [?x]) @ replicate (m - (a + 1) + 1) ?x"
    by (rule Suc.hyps(1) [OF k c])
  have n: "m - a + 1 = Suc (m - (a + 1) + 1)" using am by simp
  have rep: "replicate (m - a + 1) ?x = ?x # replicate (m - (a + 1) + 1) ?x"
    unfolding n by simp
  show ?case unfolding unf ih rep by simp
qed

lemma closed_world_trace:
  "retry_trace serial_channel online_command 3 closed_world =
     replicate 4 (online_command,
                  Rejected \<lparr>err_class = CommunicationError,
                            message = ''Not connected to device''\<rparr>)"
  unfolding retry_trace_def sendCommandWithRetry_def
  by (simp add: retry_loop_closed closed_world_def new_connection_def)

text \<open>
  Claim C4, as stated, fails. On a connection that is not open every \<^verbatim>\<open>sendCommand\<close>
  fails with a \<^verbatim>\<open>CommunicationError\<close>, and \<^verbatim>\<open>sendCommandWithRetry\<close> with the bound 3 calls
  it 4 times.
\<close>

theorem C4_four_attempts:
  "length (retry_trace serial_channel online_command 3 closed_world) = 4"
  by (simp add: closed_world_trace)

text \<open>
  Claim C4, amended. \<^verbatim>\<open>sendCommandWithRetry\<close> calls \<^verbatim>\<open>sendCommand\<close> at least once and at
  most \<open>maxRetries + 1\<close> times, each time with the command it was given. Every call but
  the last failed with an error other than \<^verbatim>\<open>DeviceBusyError\<close> and \<^verbatim>\<open>TimeoutError\<close>;
  when fewer than \<open>maxRetries + 1\<close> calls were made, the last call did not fail so (it
  returned, stays pending, or failed with \<^verbatim>\<open>DeviceBusyError\<close> or \<^verbatim>\<open>TimeoutError\<close>); and
  the result is what the last call gave.
\<close>

theorem C4_retry_policy:
  "retry_trace ch cmd maxRetries s \<noteq> []
   \<and> length (retry_trace ch cmd maxRetries s) \<le> maxRetries + 1
   \<and> (\<forall>x \<in> set (butlast (retry_trace ch cmd maxRetries s)). retried (snd x))
   \<and> (length (retry_trace ch cmd maxRetries s) < maxRetries + 1
        \<longrightarrow> \<not> retried (snd (last (retry_trace ch cmd maxRetries s))))
   \<and> (\<forall>x \<in> set (retry_trace ch cmd maxRetries s). fst x = cmd)
   \<and> fst (sendCommandWithRetry (recording ch) cmd maxRetries ([], s)) =
       snd (last (retry_trace ch cmd maxRetries s))"
  using retry_loop_trace [of ch cmd maxRetries 0 "[]" s]
  unfolding retry_trace_def sendCommandWithRetry_def
  by auto

text \<open>A device that is busy, and one that timed out, are not asked again.\<close>

lemma retry_loop_not_retried:
  "\<not> retried (fst (ch_sendCommand ch cmd s)) \<Longrightarrow>
   retry_loop ch cmd m a s = ch_sendCommand ch cmd s"
  by (subst retry_loop.simps)
     (cases "fst (ch_sendCommand ch cmd s)"; auto simp add: Let_def retried_def prod_eq_iff)

lemma busy_world_trace:
  "retry_trace serial_channel online_command 3 busy_world =
     [(online_command,
       Rejected \<lparr>err_class = DeviceBusyError,
                 message = ''Device is busy with another operation''\<rparr>)]"
proof -
  have a: "await_sendCommand online_command busy_world =
             (Rejected \<lparr>err_class = DeviceBusyError,
                        message = ''Device is busy with another operation''\<rparr>, busy_world)"
    by (simp add: await_sendCommand_def busy_world_def sendCommand_def awaiting_fields)
  have "retry_loop (recording serial_channel) online_command 3 0 ([], busy_world) =
          ch_sendCommand (recording serial_channel) online_command ([], busy_world)"
    by (rule retry_loop_not_retried) (simp add: serial_channel_def a retried_def)
  then show ?thesis
    unfolding retry_trace_def sendCommandWithRetry_def
    by (simp add: serial_channel_def a)
qed

theorem C4_retry_policy_witness:
  "retry_trace serial_channel online_command 3 closed_world \<noteq> []
   \<and> length (retry_trace serial_channel online_command 3 closed_world) = 3 + 1
   \<and> butlast (retry_trace serial_channel online_command 3 closed_world) =
       replicate 3 (online_command,
                    Rejected \<lparr>err_class = CommunicationError,
                              message = ''Not connected to device''\<rparr>)
   \<and> retried (Rejected \<lparr>err_class = CommunicationError,
                          message = ''Not connected to device''\<rparr>)
   \<and> fst (sendCommandWithRetry (recording serial_channel) online_command 3
            ([], closed_world)) =
       Rejected \<lparr>err_class = CommunicationError, message = ''Not connected to device''\<rparr>
   \<and> length (retry_trace serial_channel online_command 3 busy_world) < 3 + 1
   \<and> \<not> retried (snd (last (retry_trace serial_channel online_command 3 busy_world)))
   \<and> fst (sendCommandWithRetry (recording serial_channel) online_command 3
            ([], busy_world)) =
       Rejected \<lparr>err_class = DeviceBusyError,
                 message = ''Device is busy with another operation''\<rparr>"
proof -
  let ?x = "(online_command,
             Rejected \<lparr>err_class = CommunicationError,
                       message = ''Not connected to device''\<rparr>)"
  have b: "butlast (replicate 4 ?x) = replicate 3 ?x"
    by (simp add: eval_nat_numeral)
  have closed:
    "retry_trace serial_channel online_command 3 closed_world \<noteq> []
     \<and> length (retry_trace serial_channel online_command 3 closed_world) = 3 + 1
     \<and> butlast (retry_trace serial_channel online_command 3 closed_world) = replicate 3 ?x
     \<and> retried (snd ?x)
     \<and> fst (sendCommandWithRetry (recording serial_channel) online_command 3
              ([], closed_world)) = snd ?x"
    using C4_retry_policy [of serial_channel online_command 3 closed_world]
    unfolding closed_world_trace b
    by (simp add: retried_def)
  have busy:
    "length (retry_trace serial_channel online_command 3 busy_world) < 3 + 1
     \<and> \<not> retried (snd (last (retry_trace serial_channel online_command 3 busy_world)))
     \<and> fst (sendCommandWithRetry (recording serial_channel) online_command 3
              ([], busy_world)) =
         Rejected \<lparr>err_class = DeviceBusyError,
                   message = ''Device is busy with another operation''\<rparr>"
    using C4_retry_policy [of serial_channel online_command 3 busy_world]
    unfolding busy_world_trace
    by simp
  show ?thesis using closed busy by simp
qed

section \<open>Reading the response of the device\<close>

lemma includes_str_iff: "includes_str s t \<longleftrightarrow> (\<exists>pre post. s = pre @ t @ post)"
proof (induction s)
  case Nil
  then show ?case by auto
next
  case (Cons c s)
  have here: "take (length t) (c # s) = t \<longleftrightarrow> (\<exists>post. c # s = t @ post)"
    by (metis append_eq_conv_conj)
  show ?case
  proof
    assume "includes_str (c # s) t"
    then consider "take (length t) (c # s) = t" | "includes_str s t" by auto
    then show "\<exists>pre post. c # s = pre @ t @ post"
    proof cases
      case 1
      then obtain post where "c # s = t @ post" using here by blast
      then have "c # s = [] @ t @ post" by simp
      then show ?thesis by blast
    next
      case 2
      then obtain pre post where "s = pre @ t @ post" using Cons.IH by blast
      then have "c # s = (c # pre) @ t @ post" by simp
      then show ?thesis by blast
    qed
  next
    assume "\<exists>pre post. c # s = pre @ t @ post"
    then obtain pre post where p: "c # s = pre @ t @ post" by blast
    show "includes_str (c # s) t"
    proof (cases pre)
      case Nil
      then have "take (length t) (c # s) = t" using p here by auto
      then show ?thesis by simp
    next
      case (Cons d pre')
      then have "s = pre' @ t @ post" using p by simp
      then have "includes_str s t" using Cons.IH by blast
      then show ?thesis by simp
    qed
  qed
qed

text \<open>
  Claim C9. \<^verbatim>\<open>uploadSingleChunk\<close> returns normally if and only if the command got a
  response whose text has \<^verbatim>\<open>done\<close> somewhere in it; with any other response it throws a
  \<^verbatim>\<open>CommunicationError\<close>.
\<close>

theorem C9_acknowledged_iff_done:
  "(fst (uploadSingleChunk ch name content flag s) = Resolved ()
      \<longleftrightarrow> (\<exists>r. fst (sendCommandWithRetry ch (chunk_command name content flag) 2 s)
                  = Resolved r
                \<and> (\<exists>pre post. toString (response_data r) = pre @ ''done'' @ post)))
   \<and> (\<forall>r. fst (sendCommandWithRetry ch (chunk_command name content flag) 2 s) = Resolved r
           \<and> \<not> (\<exists>pre post. toString (response_data r) = pre @ ''done'' @ post)
         \<longrightarrow> fst (uploadSingleChunk ch name content flag s) =
               Rejected \<lparr>err_class = CommunicationError,
                         message = ''Upload failed: '' @ toString (response_data r)\<rparr>)"
  unfolding uploadSingleChunk_def Let_def includes_str_iff [symmetric]
  by (cases "fst (sendCommandWithRetry ch (chunk_command name content flag) 2 s)") auto

lemma toString_utf8_ascii:
  "\<forall>c \<in> set reply. (of_char c :: nat) < 128 \<Longrightarrow> toString (utf8 reply) = reply"
  by (induction reply) (simp_all add: toString_def utf8_def utf8_char_def unat_of_nat)

lemma answering_retry:
  "sendCommandWithRetry (answering reply) cmd m s =
     (Resolved \<lparr>status = SUCCESS, response_data = utf8 reply, timestamp = 0, duration = 0\<rparr>, s)"
  unfolding sendCommandWithRetry_def
  by (subst retry_loop.simps) (simp add: answering_def)

theorem C9_acknowledged_iff_done_witness:
  "fst (uploadSingleChunk (answering ''ok: done.'') ''a.py'' [0x41] 1 ()) = Resolved ()
   \<and> fst (uploadSingleChunk (answering ''error'') ''a.py'' [0x41] 1 ()) =
       Rejected \<lparr>err_class = CommunicationError, message = ''Upload failed: error''\<rparr>"
proof -
  let ?cmd = "chunk_command ''a.py'' [0x41] 1"
  let ?ok = "\<lparr>status = SUCCESS, response_data = utf8 ''ok: done.'', timestamp = 0,
             duration = 0\<rparr>"
  let ?no = "\<lparr>status = SUCCESS, response_data = utf8 ''error'', timestamp = 0,
             duration = 0\<rparr>"
  have r1: "fst (sendCommandWithRetry (answering ''ok: done.'') ?cmd 2 ()) = Resolved ?ok"
    by (simp add: answering_retry)
  have e1: "\<exists>pre post. toString (response_data ?ok) = pre @ ''done'' @ post"
    unfolding includes_str_iff [symmetric] by (simp add: toString_utf8_ascii)
  have r2: "fst (sendCommandWithRetry (answering ''error'') ?cmd 2 ()) = Resolved ?no"
    by (simp add: answering_retry)
  have e2: "\<not> (\<exists>pre post. toString (response_data ?no) = pre @ ''done'' @ post)"
    unfolding includes_str_iff [symmetric] by (simp add: toString_utf8_ascii)
  have t2: "toString (response_data ?no) = ''error''"
    by (simp add: toString_utf8_ascii)
  have "fst (uploadSingleChunk (answering ''ok: done.'') ''a.py'' [0x41] 1 ()) = Resolved ()"
    using C9_acknowledged_iff_done [of "answering ''ok: done.''" "''a.py''" "[0x41]" 1 "()"]
      r1 e1 by blast
  moreover have "fst (uploadSingleChunk (answering ''error'') ''a.py'' [0x41] 1 ()) =
      Rejected \<lparr>err_class = CommunicationError,
                message = ''Upload failed: '' @ toString (response_data ?no)\<rparr>"
    using C9_acknowledged_iff_done [of "answering ''error''" "''a.py''" "[0x41]" 1 "()"]
      r2 e2 by blast
  ultimately show ?thesis unfolding t2 by simp
qed

section \<open>Running code on the device\<close>

text \<open>
  Claim C8. \<^verbatim>\<open>executeCode\<close> never throws: whatever error \<^verbatim>\<open>sendCommand\<close> throws, it
  returns a result with an empty output, exit code 1 and the message of the error.
\<close>

theorem C8_executeCode_catches:
  "(\<forall>e. fst (executeCode ch src s) \<noteq> Rejected e)
   \<and> (\<forall>e. fst (ch_sendCommand ch \<lparr>code = EXEC, data = Str src, timeout = None\<rparr> s)
             = Rejected e
         \<longrightarrow> (\<exists>r. fst (executeCode ch src s) = Resolved r \<and> exec_output r = ''''
                   \<and> exitCode r = 1 \<and> exec_error r = Some (message e)))"
  unfolding executeCode_def Let_def
  by (cases "fst (ch_sendCommand ch \<lparr>code = EXEC, data = Str src, timeout = None\<rparr> s)") auto

theorem C8_executeCode_catches_witness:
  "fst (ch_sendCommand serial_channel \<lparr>code = EXEC, data = Str ''print(1)'', timeout = None\<rparr>
         closed_world) =
     Rejected \<lparr>err_class = CommunicationError, message = ''Not connected to device''\<rparr>
   \<and> (\<exists>r. fst (executeCode serial_channel ''print(1)'' closed_world) = Resolved r
           \<and> exec_output r = '''' \<and> exitCode r = 1
           \<and> exec_error r = Some ''Not connected to device'')"
proof -
  have c: "\<not> isConnected (conn closed_world)"
    by (simp add: closed_world_def new_connection_def)
  have r: "fst (ch_sendCommand serial_channel
                 \<lparr>code = EXEC, data = Str ''print(1)'', timeout = None\<rparr> closed_world) =
           Rejected \<lparr>err_class = CommunicationError, message = ''Not connected to device''\<rparr>"
    by (simp add: serial_channel_def await_sendCommand_closed [OF c])
  show ?thesis
    using C8_executeCode_catches [of serial_channel "''print(1)''" closed_world] r
    by simp
qed

section \<open>Uploading a file\<close>

lemma chunk_command_eq:
  "chunk_command name content flag =
     \<lparr>code = DOWNLOAD_FILE, data = Buf (utf8 name @ [0x00, of_nat flag] @ content),
      timeout = Some 10000\<rparr>"
  by (simp add: chunk_command_def slice_def)

lemma lift_options_fields [simp]:
  "chunkSize (lift_options opts) = chunkSize opts"
  "retryAttempts (lift_options opts) = retryAttempts opts"
  by (simp_all add: lift_options_def)

lemma callbacks_keep_trace [simp]:
  "fst (call_onProgress (lift_options opts) p ts) = fst ts"
  "fst (call_onChunkComplete (lift_options opts) i n ts) = fst ts"
  by (simp_all add: call_onProgress_def call_onChunkComplete_def lift_options_def
      split: option.split)

lemma or_default_positive: "0 < d \<Longrightarrow> 0 < or_default a d"
  by (simp add: or_default_def split: option.split)

subsection \<open>The first command of an upload\<close>

lemma retry_loop_first:
  "\<exists>ext. fst (snd (retry_loop (recording ch) cmd m a (tr, s))) =
           tr @ (cmd, fst (ch_sendCommand ch cmd s)) # ext"
proof -
  let ?r = "ch_sendCommand ch cmd s"
  let ?x = "(cmd, fst ?r)"
  show ?thesis
  proof (cases "retried (fst ?r) \<and> a < m")
    case False
    have "fst (snd (retry_loop (recording ch) cmd m a (tr, s))) = tr @ [?x]"
      using False
      by (subst retry_loop.simps) (cases "fst ?r"; auto simp add: Let_def retried_def)
    then show ?thesis by simp
  next
    case True
    then obtain e where e: "fst ?r = Rejected e" "err_class e \<noteq> DeviceBusyError"
      "err_class e \<noteq> TimeoutError"
      by (cases "fst ?r") (simp_all add: retried_def)
    let ?s = "ch_delay ch (100 * (a + 1)) (snd ?r)"
    have unf: "retry_loop (recording ch) cmd m a (tr, s) =
               retry_loop (recording ch) cmd m (a + 1) (tr @ [?x], ?s)"
      using True by (subst retry_loop.simps) (simp add: Let_def e)
    obtain ext where
      "fst (snd (retry_loop (recording ch) cmd m (a + 1) (tr @ [?x], ?s))) = (tr @ [?x]) @ ext"
      using retry_loop_trace [of ch cmd m "a + 1" "tr @ [?x]" ?s] by blast
    then show ?thesis unfolding unf by simp
  qed
qed

lemma uploadSingleChunk_state:
  "snd (uploadSingleChunk ch name content flag s) =
     snd (sendCommandWithRetry ch (chunk_command name content flag) 2 s)"
  unfolding uploadSingleChunk_def Let_def
  by (cases "fst (sendCommandWithRetry ch (chunk_command name content flag) 2 s)") auto

lemma uploadSingleChunk_first:
  "\<exists>ext. fst (snd (uploadSingleChunk (recording ch) name content flag (tr, s))) =
           tr @ (chunk_command name content flag,
                 fst (ch_sendCommand ch (chunk_command name content flag) s)) # ext"
  unfolding uploadSingleChunk_state sendCommandWithRetry_def
  by (rule retry_loop_first)

lemma chunk_attempts_first:
  "\<exists>ext. fst (snd (chunk_attempts (recording ch) name chunk flag retries a (tr, s))) =
           tr @ (chunk_command name chunk flag,
                 fst (ch_sendCommand ch (chunk_command name chunk flag) s)) # ext"
proof (induction "retries - a" arbitrary: a tr s)
  case 0
  let ?u = "uploadSingleChunk (recording ch) name chunk flag (tr, s)"
  have "snd (chunk_attempts (recording ch) name chunk flag retries a (tr, s)) = snd ?u"
    using 0 by (subst chunk_attempts.simps) (cases "fst ?u"; simp add: Let_def)
  then show ?case using uploadSingleChunk_first [of ch name chunk flag tr s] by simp
next
  case (Suc k)
  then have k: "k = retries - (a + 1)" and ar: "a < retries" by simp_all
  let ?u = "uploadSingleChunk (recording ch) name chunk flag (tr, s)"
  let ?x = "(chunk_command name chunk flag,
             fst (ch_sendCommand ch (chunk_command name chunk flag) s))"
  obtain ext where ext: "fst (snd ?u) = tr @ ?x # ext"
    using uploadSingleChunk_first [of ch name chunk flag tr s] by blast
  show ?case
  proof (cases "fst ?u")
    case (Rejected e)
    let ?s = "ch_delay ch (100 * 2 ^ a) (snd (snd ?u))"
    have "chunk_attempts (recording ch) name chunk flag retries a (tr, s) =
          chunk_attempts (recording ch) name chunk flag retries (a + 1) (tr @ ?x # ext, ?s)"
      using Rejected ar ext
      by (subst chunk_attempts.simps) (simp add: Let_def)
    moreover obtain ext' where
      "fst (snd (chunk_attempts (recording ch) name chunk flag retries (a + 1)
                   (tr @ ?x # ext, ?s))) =
         (tr @ ?x # ext) @
         (chunk_command name chunk flag,
          fst (ch_sendCommand ch (chunk_command name chunk flag) ?s)) # ext'"
      using Suc.hyps(1) [OF k] by blast
    ultimately show ?thesis by simp
  next
    case (Resolved u)
    then have "snd (chunk_attempts (recording ch) name chunk flag retries a (tr, s)) = snd ?u"
      by (subst chunk_attempts.simps) (simp add: Let_def)
    then show ?thesis using ext by simp
  next
    case Pending
    then have "snd (chunk_attempts (recording ch) name chunk flag retries a (tr, s)) = snd ?u"
      by (subst chunk_attempts.simps) (simp add: Let_def)
    then show ?thesis using ext by simp
  qed
qed

lemma upload_chunks_extends:
  "\<exists>ext. fst (snd (upload_chunks (recording ch) name content (lift_options opts) csize
                     retries n i u (tr, s))) = tr @ ext"
proof (induction "n - i" arbitrary: i u tr s)
  case 0
  then have "upload_chunks (recording ch) name content (lift_options opts) csize retries n i u
               (tr, s) = (Resolved (), (tr, s))"
    by (subst upload_chunks.simps) simp
  then show ?case by simp
next
  case (Suc k)
  then have k: "k = n - (i + 1)" and i: "i < n" by simp_all
  let ?chunk = "slice content (i * csize) (min (i * csize + csize) (length content))"
  let ?flag = "if i = 0 then 0x01 else 0x00 :: nat"
  let ?r = "chunk_attempts (recording ch) name ?chunk ?flag retries 0 (tr, s)"
  obtain ext where ext: "fst (snd ?r) = tr @ ext"
    using chunk_attempts_first [of ch name ?chunk ?flag retries 0 tr s] by auto
  show ?case
  proof (cases "fst ?r")
    case (Resolved v)
    let ?s1 = "call_onProgress (lift_options opts)
                 \<lparr>filename = name, bytesTransferred = u + length ?chunk,
                  totalBytes = length content, chunkIndex = i + 1, totalChunks = n\<rparr> (snd ?r)"
    let ?s2 = "call_onChunkComplete (lift_options opts) (i + 1) n ?s1"
    obtain tr2 s2 where p: "?s2 = (tr2, s2)" by (cases ?s2)
    have "fst ?s2 = tr @ ext" using ext by simp
    then have tr2: "tr2 = tr @ ext" unfolding p by simp
    have unf: "upload_chunks (recording ch) name content (lift_options opts) csize retries n i
                 u (tr, s) =
               upload_chunks (recording ch) name content (lift_options opts) csize retries n
                 (i + 1) (u + length ?chunk) ?s2"
      using Resolved i by (subst upload_chunks.simps) (simp add: Let_def)
    obtain ext' where
      "fst (snd (upload_chunks (recording ch) name content (lift_options opts) csize retries n
                   (i + 1) (u + length ?chunk) (tr2, s2))) = tr2 @ ext'"
      using Suc.hyps(1) [OF k] by blast
    then show ?thesis unfolding unf p tr2 by simp
  next
    case (Rejected e)
    then have "snd (upload_chunks (recording ch) name content (lift_options opts) csize retries
                      n i u (tr, s)) = snd ?r"
      using i by (subst upload_chunks.simps) (simp add: Let_def)
    then show ?thesis using ext by simp
  next
    case Pending
    then have "snd (upload_chunks (recording ch) name content (lift_options opts) csize retries
                      n i u (tr, s)) = snd ?r"
      using i by (subst upload_chunks.simps) (simp add: Let_def)
    then show ?thesis using ext by simp
  qed
qed

lemma upload_chunks_first:
  assumes "i < n"
  shows "\<exists>ext. fst (snd (upload_chunks (recording ch) name content (lift_options opts) csize
                     retries n i u (tr, s))) =
           tr @ (chunk_command name (chunk_bytes content csize i) (if i = 0 then 1 else 0),
                 fst (ch_sendCommand ch
                       (chunk_command name (chunk_bytes content csize i)
                          (if i = 0 then 1 else 0)) s))
              # ext"
proof -
  let ?chunk = "chunk_bytes content csize i"
  let ?flag = "if i = 0 then 1 else 0 :: nat"
  let ?x = "(chunk_command name ?chunk ?flag,
             fst (ch_sendCommand ch (chunk_command name ?chunk ?flag) s))"
  let ?r = "chunk_attempts (recording ch) name ?chunk ?flag retries 0 (tr, s)"
  obtain ext where ext: "fst (snd ?r) = tr @ ?x # ext"
    using chunk_attempts_first [of ch name ?chunk ?flag retries 0 tr s] by blast
  show ?thesis
  proof (cases "fst ?r")
    case (Resolved v)
    let ?s1 = "call_onProgress (lift_options opts)
                 \<lparr>filename = name, bytesTransferred = u + length ?chunk,
                  totalBytes = length content, chunkIndex = i + 1, totalChunks = n\<rparr> (snd ?r)"
    let ?s2 = "call_onChunkComplete (lift_options opts) (i + 1) n ?s1"
    obtain tr2 s2 where p: "?s2 = (tr2, s2)" by (cases ?s2)
    have "fst ?s2 = tr @ ?x # ext" using ext by simp
    then have tr2: "tr2 = tr @ ?x # ext" unfolding p by simp
    have unf: "upload_chunks (recording ch) name content (lift_options opts) csize retries n i
                 u (tr, s) =
               upload_chunks (recording ch) name content (lift_options opts) csize retries n
                 (i + 1) (u + length ?chunk) ?s2"
      using Resolved assms unfolding chunk_bytes_def
      by (subst upload_chunks.simps) (simp add: Let_def split del: if_split)
    obtain ext' where
      "fst (snd (upload_chunks (recording ch) name content (lift_options opts) csize retries n
                   (i + 1) (u + length ?chunk) (tr2, s2))) = tr2 @ ext'"
      using upload_chunks_extends [of ch name content opts csize retries n "i + 1"
          "u + length ?chunk" tr2 s2]
      by blast
    then show ?thesis unfolding unf p tr2 by simp
  next
    case (Rejected e)
    then have "snd (upload_chunks (recording ch) name content (lift_options opts) csize retries
                      n i u (tr, s)) = snd ?r"
      using assms unfolding chunk_bytes_def
      by (subst upload_chunks.simps) (simp add: Let_def split del: if_split)
    then show ?thesis using ext by simp
  next
    case Pending
    then have "snd (upload_chunks (recording ch) name content (lift_options opts) csize retries
                      n i u (tr, s)) = snd ?r"
      using assms unfolding chunk_bytes_def
      by (subst upload_chunks.simps) (simp add: Let_def split del: if_split)
    then show ?thesis using ext by simp
  qed
qed

lemma ceil_div_positive: "0 < b \<Longrightarrow> b < a \<Longrightarrow> 0 < ceil_div a b"
  by (simp add: ceil_div_def div_greater_zero_iff)

lemma chunk_bytes_whole: "length P \<le> C \<Longrightarrow> chunk_bytes P C 0 = P"
  by (simp add: chunk_bytes_def slice_def)

lemma uploadFile_first:
  "\<exists>ext. upload_trace ch name content overwrite opts s =
           (chunk_command name
              (chunk_bytes content (or_default (chunkSize opts) maxChunkSize) 0)
              (chunk_flag content (or_default (chunkSize opts) maxChunkSize) overwrite 0),
            fst (ch_sendCommand ch
                  (chunk_command name
                     (chunk_bytes content (or_default (chunkSize opts) maxChunkSize) 0)
                     (chunk_flag content (or_default (chunkSize opts) maxChunkSize)
                        overwrite 0)) s)) # ext"
proof -
  let ?C = "or_default (chunkSize opts) maxChunkSize"
  have C: "0 < ?C" by (rule or_default_positive) (simp add: maxChunkSize_def)
  show ?thesis
  proof (cases "length content \<le> ?C")
    case True
    let ?flag = "if overwrite then 0x01 else 0x00 :: nat"
    let ?u = "uploadSingleChunk (recording ch) name content ?flag ([], s)"
    have "fst (snd (uploadFile (recording ch) name content overwrite (lift_options opts)
                     ([], s))) = fst (snd ?u)"
      using True unfolding uploadFile_def Let_def
      by (cases "fst ?u") simp_all
    moreover have "chunk_flag content ?C overwrite 0 = ?flag"
      using True by (simp add: chunk_flag_def)
    ultimately show ?thesis
      using uploadSingleChunk_first [of ch name content ?flag "[]" s] True
      unfolding upload_trace_def by (simp add: chunk_bytes_whole)
  next
    case False
    then have n: "0 < ceil_div (length content) ?C"
      using C by (intro ceil_div_positive) simp_all
    have "uploadFile (recording ch) name content overwrite (lift_options opts) ([], s) =
          upload_chunks (recording ch) name content (lift_options opts) ?C
            (or_default (retryAttempts opts) 3) (ceil_div (length content) ?C) 0 0 ([], s)"
      using False unfolding uploadFile_def Let_def by simp
    moreover have "chunk_flag content ?C overwrite 0 = 1"
      using False by (simp add: chunk_flag_def)
    ultimately show ?thesis
      using upload_chunks_first [OF n, of ch name content opts ?C _ 0 "[]" s]
      unfolding upload_trace_def by simp
  qed
qed

text \<open>
  Claim C3, amended. \<^verbatim>\<open>uploadFile\<close> does not validate the file name: whatever the name,
  the first thing it does is to send the command of the first chunk, which carries the
  name as it was given. Validation is a function of its own: \<^verbatim>\<open>validateFilename\<close> rejects
  every name that is longer than 28 characters or has a character outside the allowed
  set.
\<close>

theorem C3_upload_without_validation:
  "((28 < length name \<or> \<not> set name \<subseteq> set allowed_chars)
      \<longrightarrow> \<not> valid (validateFilename name))
   \<and> (\<exists>ext. upload_trace ch name content overwrite opts s =
          (chunk_command name
             (chunk_bytes content (or_default (chunkSize opts) maxChunkSize) 0)
             (chunk_flag content (or_default (chunkSize opts) maxChunkSize) overwrite 0),
           fst (ch_sendCommand ch
                 (chunk_command name
                    (chunk_bytes content (or_default (chunkSize opts) maxChunkSize) 0)
                    (chunk_flag content (or_default (chunkSize opts) maxChunkSize)
                       overwrite 0)) s)) # ext)"
proof -
  have "(28 < length name \<or> \<not> set name \<subseteq> set allowed_chars)
          \<longrightarrow> \<not> valid (validateFilename name)"
    unfolding validateFilename_def regex_test_iff by auto
  then show ?thesis using uploadFile_first [of ch name content overwrite opts s] by blast
qed

subsection \<open>An upload through an open connection\<close>

lemma written_step: "written (step i s) = written s"
  by (cases i) (simp_all add: step_defs split: option.split sum.split)

lemma written_steps: "written (foldl (\<lambda>x i. step i x) s is) = written s"
  by (induction "is" arbitrary: s) (simp_all add: written_step)

lemma calls_steps: "calls (foldl (\<lambda>x i. step i x) s is) = calls s"
  by (induction "is" arbitrary: s) (simp_all add: calls_step)

lemma await_sendCommand_open:
  "fst (await_sendCommand cmd open_world) = Pending"
  "written (conn (snd (await_sendCommand cmd open_world))) =
     [createFrame (createCommandBuffer (code cmd) (data cmd))]"
proof -
  obtain c where c: "sendCommand cmd open_connection = (Inr 0, c)"
    by (simp add: sendCommand_def open_connection_fields Let_def)
  have "c = snd (sendCommand cmd open_connection)" using c by simp
  then have w: "written c = [createFrame (createCommandBuffer (code cmd) (data cmd))]"
    and k: "calls c = []"
    by (simp_all add: sendCommand_def sendCommandInternal_def open_connection_fields Let_def)
  show "fst (await_sendCommand cmd open_world) = Pending"
    by (simp add: await_sendCommand_def open_world_def c Let_def settled_def calls_of_def
        calls_steps calls_step k)
  show "written (conn (snd (await_sendCommand cmd open_world))) =
     [createFrame (createCommandBuffer (code cmd) (data cmd))]"
    by (simp add: await_sendCommand_def open_world_def c Let_def written_steps written_step w)
qed

lemma uploadFile_pending:
  assumes "fst (ch_sendCommand ch (chunk_command name content (if overwrite then 1 else 0)) s)
             = Pending"
    and "length content \<le> or_default (chunkSize opts) maxChunkSize"
  shows "uploadFile ch name content overwrite opts s =
           (Pending,
            snd (ch_sendCommand ch (chunk_command name content (if overwrite then 1 else 0)) s))"
proof -
  let ?cmd = "chunk_command name content (if overwrite then 1 else 0)"
  have r: "retry_loop ch ?cmd 2 0 s = ch_sendCommand ch ?cmd s"
    using assms(1) by (intro retry_loop_not_retried) (simp add: retried_def)
  have "uploadSingleChunk ch name content (if overwrite then 1 else 0) s =
          (Pending, snd (ch_sendCommand ch ?cmd s))"
    unfolding uploadSingleChunk_def sendCommandWithRetry_def r Let_def
    using assms(1) by simp
  then show ?thesis
    unfolding uploadFile_def Let_def using assms(2) by simp
qed

lemma name30_upload:
  "uploadFile serial_channel name30 [0x41] True no_options open_world =
     (Pending, snd (await_sendCommand (chunk_command name30 [0x41] 1) open_world))"
  using uploadFile_pending [of serial_channel name30 "[0x41]" True open_world no_options]
  by (simp add: serial_channel_def await_sendCommand_open no_options_def or_default_def
      maxChunkSize_def)

text \<open>
  Claim C3, as stated, fails. A file name of 30 characters of the allowed set, which
  \<^verbatim>\<open>validateFilename\<close> rejects, is passed to \<^verbatim>\<open>uploadFile\<close> on an open connection: the
  frame of the first chunk is built and handed to the transport.
\<close>

theorem C3_long_name_is_written:
  "length name30 = 30 \<and> set name30 \<subseteq> set allowed_chars
   \<and> \<not> valid (validateFilename name30)
   \<and> written (conn (snd (uploadFile serial_channel name30 [0x41] True no_options
                            open_world))) =
       [createFrame (createCommandBuffer DOWNLOAD_FILE
                       (Buf (utf8 name30 @ [0x00, 0x01] @ [0x41])))]"
proof -
  have v: "\<not> valid (validateFilename name30)"
    by (simp add: validateFilename_def name30_def)
  have s: "set name30 \<subseteq> set allowed_chars"
    by (simp add: name30_def allowed_chars_def)
  show ?thesis
    using v s unfolding name30_upload
    by (simp add: await_sendCommand_open chunk_command_eq) (simp add: name30_def)
qed

theorem C3_upload_without_validation_witness:
  "28 < length name30 \<and> \<not> valid (validateFilename name30)
   \<and> (\<exists>ext. upload_trace serial_channel name30 [0x41] True no_options open_world =
          (chunk_command name30 [0x41] 1, Pending) # ext)"
proof -
  have c: "chunk_bytes [0x41] (or_default (chunkSize no_options) maxChunkSize) 0 = [0x41]"
    by (simp add: chunk_bytes_whole no_options_def or_default_def maxChunkSize_def)
  have f: "chunk_flag [0x41] (or_default (chunkSize no_options) maxChunkSize) True 0 = 1"
    by (simp add: chunk_flag_def no_options_def or_default_def maxChunkSize_def)
  have l: "28 < length name30" by (simp add: name30_def)
  have p: "fst (ch_sendCommand serial_channel (chunk_command name30 [0x41] 1) open_world)
             = Pending"
    by (simp add: serial_channel_def await_sendCommand_open)
  show ?thesis
    using C3_upload_without_validation
      [of name30 serial_channel "[0x41]" True no_options open_world] l
    unfolding c f p by simp
qed

subsection \<open>An upload whose commands are all acknowledged\<close>














subsection \<open>Three chunks to a device that is busy afterwards\<close>







end
